theory Spec2Isabelle
  imports Complex_Main "HOL-Library.Log_Nat" "HOL-Library.Multiset"
begin

section \<open>JavaScript values\<close>

text \<open>
  The handlers of \<^verbatim>\<open>server.js\<close> read untyped JSON: a field of the request body may be
  absent (\<^verbatim>\<open>undefined\<close>), \<^verbatim>\<open>null\<close>, a boolean, a number, a string, an array or an
  object. The handlers only test such values for truthiness, compare them with
  \<^verbatim>\<open>===\<close> against string literals, and pass them on. Numbers are kept as integers:
  the only numbers the handlers compute themselves are list lengths and the
  completion rate.
\<close>

datatype jsval =
    Undefined
  | Null
  | Bool bool
  | Num int
  | Str string
  | Arr "jsval list"
  | Obj "(string \<times> jsval) list"

type_synonym object = "(string \<times> jsval) list"

text \<open>\<^verbatim>\<open>!v\<close> is \<open>\<not> truthy v\<close>.\<close>

fun truthy :: "jsval \<Rightarrow> bool" where
  "truthy Undefined = False"
| "truthy Null = False"
| "truthy (Bool b) = b"
| "truthy (Num n) = (n \<noteq> 0)"
| "truthy (Str s) = (s \<noteq> [])"
| "truthy (Arr xs) = True"
| "truthy (Obj kvs) = True"

text \<open>\<^verbatim>\<open>a || b\<close>\<close>

definition or_else :: "jsval \<Rightarrow> jsval \<Rightarrow> jsval" where
  "or_else a b = (if truthy a then a else b)"

text \<open>Property access \<^verbatim>\<open>ob.k\<close>: a property that is not there reads as \<^verbatim>\<open>undefined\<close>.\<close>

definition attr :: "object \<Rightarrow> string \<Rightarrow> jsval" where
  "attr ob k = (case map_of ob k of None \<Rightarrow> Undefined | Some v \<Rightarrow> v)"

text \<open>Assignment \<^verbatim>\<open>ob[k] = v\<close>: overwrite in place, or add as the last property.\<close>

fun assign :: "string \<Rightarrow> jsval \<Rightarrow> object \<Rightarrow> object" where
  "assign k v [] = [(k, v)]"
| "assign k v (p # ps) = (if fst p = k then (k, v) # ps else p # assign k v ps)"

section \<open>The document store\<close>

text \<open>
  The store is an external service with two tables. A table is the list of its items in
  the order a scan returns them; the primary key of an item is its attribute \<^verbatim>\<open>id\<close>.
  Where a new key lands in the scan order is the store's business; here it is the end.
\<close>

datatype table_name = TASKS_TABLE | BOARDS_TABLE

record store =
  task_items :: "object list"
  board_items :: "object list"

fun table :: "table_name \<Rightarrow> store \<Rightarrow> object list" where
  "table TASKS_TABLE s = task_items s"
| "table BOARDS_TABLE s = board_items s"

fun with_table :: "table_name \<Rightarrow> object list \<Rightarrow> store \<Rightarrow> store" where
  "with_table TASKS_TABLE xs s = s\<lparr>task_items := xs\<rparr>"
| "with_table BOARDS_TABLE xs s = s\<lparr>board_items := xs\<rparr>"

definition has_key :: "jsval \<Rightarrow> object \<Rightarrow> bool" where
  "has_key k it = (attr it ''id'' = k)"

text \<open>Point lookup: the item with this key, if there is one.\<close>

definition get_item :: "jsval \<Rightarrow> object list \<Rightarrow> object option" where
  "get_item k tbl = find (has_key k) tbl"

text \<open>Unconditional write of a whole item: an item with the same key is replaced.\<close>

definition put_item :: "object \<Rightarrow> object list \<Rightarrow> object list" where
  "put_item it tbl =
     (if list_ex (has_key (attr it ''id'')) tbl
      then map (\<lambda>x. if has_key (attr it ''id'') x then it else x) tbl
      else tbl @ [it])"

text \<open>
  \<^verbatim>\<open>SET a = :a, b = :b\<close> on the item with this key. The store creates the item when
  the key is new. The result is the item after the update (\<^verbatim>\<open>ALL_NEW\<close>).
\<close>

definition apply_set :: "(string \<times> jsval) list \<Rightarrow> object \<Rightarrow> object" where
  "apply_set sets it = foldl (\<lambda>acc (k, v). assign k v acc) it sets"

definition update_item :: "jsval \<Rightarrow> (string \<times> jsval) list \<Rightarrow> object list \<Rightarrow> object list" where
  "update_item k sets tbl =
     (if list_ex (has_key k) tbl
      then map (\<lambda>x. if has_key k x then apply_set sets x else x) tbl
      else tbl @ [apply_set sets [(''id'', k)]])"

definition updated_attributes :: "jsval \<Rightarrow> (string \<times> jsval) list \<Rightarrow> object list \<Rightarrow> object" where
  "updated_attributes k sets tbl =
     (case get_item k tbl of
        None \<Rightarrow> apply_set sets [(''id'', k)]
      | Some x \<Rightarrow> apply_set sets x)"

definition delete_item :: "jsval \<Rightarrow> object list \<Rightarrow> object list" where
  "delete_item k tbl = filter (\<lambda>x. \<not> has_key k x) tbl"

text \<open>
  A scan reads the items of the table in scan order until a page is full, applies the
  optional filter \<^verbatim>\<open>boardId = :boardId\<close> to what it has read (an item without the attribute
  does not match) and answers with that. The handlers send one scan and never ask for
  the next page. \<open>read_page\<close> is what the store reads: the first \<open>n\<close> items when the page
  was full after \<open>n\<close> items, the whole table otherwise.
\<close>

definition read_page :: "nat option \<Rightarrow> object list \<Rightarrow> object list" where
  "read_page pg tbl = (case pg of None \<Rightarrow> tbl | Some n \<Rightarrow> take n tbl)"

definition scan_items :: "jsval option \<Rightarrow> object list \<Rightarrow> object list" where
  "scan_items flt tbl =
     (case flt of
        None \<Rightarrow> tbl
      | Some b \<Rightarrow> filter (\<lambda>x. map_of x ''boardId'' = Some b) tbl)"

text \<open>
  \<^verbatim>\<open>docClient.send(command)\<close> either returns or throws. What a call does is not decided by
  the handler: each handler takes the list \<open>fs\<close> of what its store calls do, in the order
  it makes them. \<open>Throws\<close>: the call throws, whatever the reason (the store is
  unreachable, the key has a type the table does not accept); it leaves the table as it
  was. \<open>Returns_page n\<close>: the call returns, and if it is a scan, the page was full after
  \<open>n\<close> items. \<open>Returns\<close>, or no entry: the call returns, a scan having read the whole
  table.
\<close>

datatype store_error = StoreError

datatype call = Returns | Throws | Returns_page nat

definition raises :: "call list \<Rightarrow> nat \<Rightarrow> bool" where
  "raises fs i = (i < length fs \<and> fs ! i = Throws)"

definition page :: "call list \<Rightarrow> nat \<Rightarrow> nat option" where
  "page fs i =
     (if i < length fs
      then (case fs ! i of Returns_page n \<Rightarrow> Some n | _ \<Rightarrow> None)
      else None)"

definition send_Get :: "bool \<Rightarrow> table_name \<Rightarrow> jsval \<Rightarrow> store \<Rightarrow> store_error + object option" where
  "send_Get throws tn k s = (if throws then Inl StoreError else Inr (get_item k (table tn s)))"

definition send_Put :: "bool \<Rightarrow> table_name \<Rightarrow> object \<Rightarrow> store \<Rightarrow> store_error + store" where
  "send_Put throws tn it s =
     (if throws then Inl StoreError else Inr (with_table tn (put_item it (table tn s)) s))"

definition send_Update ::
  "bool \<Rightarrow> table_name \<Rightarrow> jsval \<Rightarrow> (string \<times> jsval) list \<Rightarrow> store \<Rightarrow> store_error + object \<times> store" where
  "send_Update throws tn k sets s =
     (if throws then Inl StoreError
      else Inr (updated_attributes k sets (table tn s),
                with_table tn (update_item k sets (table tn s)) s))"

definition send_Delete :: "bool \<Rightarrow> table_name \<Rightarrow> jsval \<Rightarrow> store \<Rightarrow> store_error + store" where
  "send_Delete throws tn k s =
     (if throws then Inl StoreError else Inr (with_table tn (delete_item k (table tn s)) s))"

text \<open>The result of a scan carries \<^verbatim>\<open>Items\<close>; the handlers read \<^verbatim>\<open>result.Items || []\<close>.\<close>

definition send_Scan ::
  "bool \<Rightarrow> nat option \<Rightarrow> table_name \<Rightarrow> jsval option \<Rightarrow> store \<Rightarrow> store_error + object list option" where
  "send_Scan throws pg tn flt s =
     (if throws then Inl StoreError
      else Inr (Some (scan_items flt (read_page pg (table tn s)))))"

definition Items_or_empty :: "object list option \<Rightarrow> object list" where
  "Items_or_empty r = (case r of None \<Rightarrow> [] | Some xs \<Rightarrow> xs)"

section \<open>Responses\<close>

record response =
  status_code :: nat
  json :: object

text \<open>\<^verbatim>\<open>res.status(c).json(ob)\<close>; \<^verbatim>\<open>res.json(ob)\<close> alone answers 200.\<close>

definition res_json :: "nat \<Rightarrow> object \<Rightarrow> response" where
  "res_json c ob = \<lparr>status_code = c, json = ob\<rparr>"

definition failure :: "nat \<Rightarrow> string \<Rightarrow> response" where
  "failure c msg = res_json c [(''success'', Bool False), (''error'', Str msg)]"

definition validStatuses :: "jsval list" where
  "validStatuses = [Str ''todo'', Str ''in-progress'', Str ''done'']"

section \<open>Task handlers\<close>

subsection \<open>GET /tasks\<close>

definition with_status :: "string \<Rightarrow> object list \<Rightarrow> object list" where
  "with_status st ts = filter (\<lambda>task. attr task ''status'' = Str st) ts"

definition organizedTasks :: "object list \<Rightarrow> object" where
  "organizedTasks ts =
     [(''todo'', Arr (map Obj (with_status ''todo'' ts))),
      (''in-progress'', Arr (map Obj (with_status ''in-progress'' ts))),
      (''done'', Arr (map Obj (with_status ''done'' ts)))]"

text \<open>\<open>boardId\<close> is \<^verbatim>\<open>req.query.boardId\<close>, \<open>Undefined\<close> when the query has none.\<close>

definition get_tasks :: "call list \<Rightarrow> jsval \<Rightarrow> store \<Rightarrow> response \<times> store" where
  "get_tasks fs boardId s =
     (case send_Scan (raises fs 0) (page fs 0) TASKS_TABLE (if truthy boardId then Some boardId else None) s of
        Inl e \<Rightarrow> (failure 500 ''Error fetching tasks'', s)
      | Inr result \<Rightarrow>
          (let ts = Items_or_empty result in
           (res_json 200
              [(''success'', Bool True),
               (''tasks'', Arr (map Obj ts)),
               (''tasksByStatus'', Obj (organizedTasks ts)),
               (''total'', Num (int (length ts))),
               (''boardId'', or_else boardId Null)], s)))"

subsection \<open>GET /tasks/:id\<close>

definition get_task :: "call list \<Rightarrow> string \<Rightarrow> store \<Rightarrow> response \<times> store" where
  "get_task fs ident s =
     (case send_Get (raises fs 0) TASKS_TABLE (Str ident) s of
        Inl e \<Rightarrow> (failure 500 ''Error fetching task'', s)
      | Inr None \<Rightarrow> (failure 404 ''Task not found'', s)
      | Inr (Some it) \<Rightarrow> (res_json 200 [(''success'', Bool True), (''task'', Obj it)], s))"

subsection \<open>POST /tasks\<close>

text \<open>
  \<open>generateId\<close> is the string \<^verbatim>\<open>generateId()\<close> returned (a clock reading followed by random
  characters), \<open>t1\<close> and \<open>t2\<close> are the two values of \<^verbatim>\<open>new Date().toISOString()\<close>, in the
  order the object literal evaluates them.
\<close>

definition post_tasks ::
  "call list \<Rightarrow> string \<Rightarrow> string \<Rightarrow> string \<Rightarrow> object \<Rightarrow> store \<Rightarrow> response \<times> store" where
  "post_tasks fs generateId t1 t2 body s =
     (let title = attr body ''title'';
          description = attr body ''description'';
          status = attr body ''status'';
          boardId = attr body ''boardId''
      in if \<not> truthy title then (failure 400 ''Title is required'', s)
         else if \<not> truthy boardId then (failure 400 ''Board ID is required'', s)
         else case send_Get (raises fs 0) BOARDS_TABLE boardId s of
                Inl e \<Rightarrow> (failure 500 ''Error creating task'', s)
              | Inr None \<Rightarrow> (failure 404 ''Board not found'', s)
              | Inr (Some board) \<Rightarrow>
                  (let taskStatus = or_else status (Str ''todo'') in
                   if taskStatus \<notin> set validStatuses
                   then (failure 400 ''Invalid status. Must be: todo, in-progress, or done'', s)
                   else
                     (let task =
                        [(''id'', Str generateId),
                         (''boardId'', boardId),
                         (''title'', title),
                         (''description'', or_else description (Str '''')),
                         (''status'', taskStatus),
                         (''createdAt'', Str t1),
                         (''updatedAt'', Str t2)]
                      in case send_Put (raises fs 1) TASKS_TABLE task s of
                           Inl e \<Rightarrow> (failure 500 ''Error creating task'', s)
                         | Inr s' \<Rightarrow>
                             (res_json 201 [(''success'', Bool True), (''task'', Obj task)], s'))))"

subsection \<open>PUT /tasks/:id\<close>

text \<open>
  \<open>now\<close> is the value of \<^verbatim>\<open>new Date().toISOString()\<close>. The lists \<open>v0\<close> to \<open>v3\<close> are the
  assignments of the \<^verbatim>\<open>SET\<close> expression as the handler extends it. In the source the
  validity check of the status sits inside \<^verbatim>\<open>if (status)\<close>, before the status is added;
  both conditions are written as one here.
\<close>

definition put_task ::
  "call list \<Rightarrow> string \<Rightarrow> string \<Rightarrow> object \<Rightarrow> store \<Rightarrow> response \<times> store" where
  "put_task fs now ident body s =
     (let title = attr body ''title'';
          description = attr body ''description'';
          status = attr body ''status''
      in case send_Get (raises fs 0) TASKS_TABLE (Str ident) s of
           Inl e \<Rightarrow> (failure 500 ''Error updating task'', s)
         | Inr None \<Rightarrow> (failure 404 ''Task not found'', s)
         | Inr (Some existingTask) \<Rightarrow>
             (let v0 = [(''updatedAt'', Str now)];
                  v1 = (if truthy title then v0 @ [(''title'', title)] else v0);
                  v2 = (if description \<noteq> Undefined
                        then v1 @ [(''description'', description)] else v1)
              in if truthy status \<and> status \<notin> set validStatuses
                 then (failure 400 ''Invalid status. Must be: todo, in-progress, or done'', s)
                 else
                   (let v3 = (if truthy status then v2 @ [(''status'', status)] else v2)
                    in case send_Update (raises fs 1) TASKS_TABLE (Str ident) v3 s of
                         Inl e \<Rightarrow> (failure 500 ''Error updating task'', s)
                       | Inr (attributes, s') \<Rightarrow>
                           (res_json 200 [(''success'', Bool True), (''task'', Obj attributes)], s'))))"

subsection \<open>DELETE /tasks/:id\<close>

definition delete_task :: "call list \<Rightarrow> string \<Rightarrow> store \<Rightarrow> response \<times> store" where
  "delete_task fs ident s =
     (case send_Get (raises fs 0) TASKS_TABLE (Str ident) s of
        Inl e \<Rightarrow> (failure 500 ''Error deleting task'', s)
      | Inr None \<Rightarrow> (failure 404 ''Task not found'', s)
      | Inr (Some existing) \<Rightarrow>
          (case send_Delete (raises fs 1) TASKS_TABLE (Str ident) s of
             Inl e \<Rightarrow> (failure 500 ''Error deleting task'', s)
           | Inr s' \<Rightarrow>
               (res_json 200
                  [(''success'', Bool True), (''message'', Str ''Task deleted successfully'')], s')))"

section \<open>Dashboard\<close>

subsection \<open>Double-precision arithmetic\<close>

text \<open>
  JavaScript numbers are IEEE 754 binary64 values. A list length is an integer below
  \<open>2\<^sup>5\<^sup>3\<close> and so exact; \<^verbatim>\<open>/\<close> and \<^verbatim>\<open>*\<close> return the exact result rounded to the nearest
  value with a 53-bit significand, ties to the even significand. \<open>binary64\<close> is that
  rounding for the normal range (no overflow, no subnormals), which is where the
  quotients and products of the dashboard lie.
\<close>

definition pow2 :: "int \<Rightarrow> rat" where
  "pow2 e = (if 0 \<le> e then 2 ^ nat e else 1 / 2 ^ nat (- e))"

text \<open>The \<open>e\<close> with \<open>2\<^sup>e \<le> x < 2\<^sup>e\<^sup>+\<^sup>1\<close>, for \<open>x > 0\<close>.\<close>

definition exponent :: "rat \<Rightarrow> int" where
  "exponent x =
     (let (a, b) = quotient_of x; k = bitlen a - bitlen b
      in if pow2 k \<le> x then k else k - 1)"

definition round_half_even :: "rat \<Rightarrow> int" where
  "round_half_even q =
     (let f = \<lfloor>q\<rfloor>; r = q - of_int f
      in if r < 1 / 2 then f else if 1 / 2 < r then f + 1 else if even f then f else f + 1)"

definition binary64 :: "rat \<Rightarrow> rat" where
  "binary64 x =
     (if x = 0 then 0
      else (let ulp = pow2 (exponent \<bar>x\<bar> - 52)
            in sgn x * of_int (round_half_even (\<bar>x\<bar> / ulp)) * ulp))"

text \<open>\<^verbatim>\<open>Math.round\<close>: the nearest integer, a tie going up.\<close>

definition Math_round :: "rat \<Rightarrow> int" where
  "Math_round x = \<lfloor>x + 1 / 2\<rfloor>"

subsection \<open>Sorting\<close>

text \<open>
  \<^verbatim>\<open>Array.prototype.sort\<close> with a comparator is a stable sort: \<^verbatim>\<open>a\<close> comes before \<^verbatim>\<open>b\<close>
  when the comparator is negative on \<^verbatim>\<open>(a, b)\<close>, and elements that compare as equal keep
  their order. For a consistent comparator the result does not depend on the engine's
  algorithm, which is written here as an insertion sort. A comparator that returns
  \<^verbatim>\<open>NaN\<close> (here \<open>None\<close>, read as zero) for some pairs is not consistent: the language then
  leaves the order to the engine, and the order computed here is only one of the
  possible ones. Nothing is stated below about the order in that case.
\<close>

definition negative :: "int option \<Rightarrow> bool" where
  "negative c = (case c of None \<Rightarrow> False | Some n \<Rightarrow> n < 0)"

fun insert_sorted :: "('a \<Rightarrow> 'a \<Rightarrow> int option) \<Rightarrow> 'a \<Rightarrow> 'a list \<Rightarrow> 'a list" where
  "insert_sorted cmp x [] = [x]"
| "insert_sorted cmp x (y # ys) =
     (if negative (cmp x y) then x # y # ys else y # insert_sorted cmp x ys)"

definition js_sort :: "('a \<Rightarrow> 'a \<Rightarrow> int option) \<Rightarrow> 'a list \<Rightarrow> 'a list" where
  "js_sort cmp xs = foldl (\<lambda>acc x. insert_sorted cmp x acc) [] xs"

text \<open>
  \<^verbatim>\<open>new Date(b.updatedAt) - new Date(a.updatedAt)\<close>. What time value \<^verbatim>\<open>new Date(v)\<close> has is
  the runtime's business: \<open>tv v\<close> is that value in milliseconds, \<open>None\<close> for an invalid
  date, and the difference of anything with an invalid date is \<^verbatim>\<open>NaN\<close>.
\<close>

definition by_updatedAt_desc :: "(jsval \<Rightarrow> int option) \<Rightarrow> object \<Rightarrow> object \<Rightarrow> int option" where
  "by_updatedAt_desc tv a b =
     (case (tv (attr b ''updatedAt''), tv (attr a ''updatedAt'')) of
        (Some tb, Some ta) \<Rightarrow> Some (tb - ta)
      | _ \<Rightarrow> None)"

subsection \<open>GET /dashboard\<close>

definition completionRate :: "object list \<Rightarrow> int" where
  "completionRate ts =
     (if length ts > 0
      then Math_round
             (binary64 (binary64 (of_nat (length (with_status ''done'' ts)) / of_nat (length ts)) * 100))
      else 0)"

definition stats :: "object list \<Rightarrow> object" where
  "stats ts =
     [(''total'', Num (int (length ts))),
      (''todo'', Num (int (length (with_status ''todo'' ts)))),
      (''inProgress'', Num (int (length (with_status ''in-progress'' ts)))),
      (''done'', Num (int (length (with_status ''done'' ts)))),
      (''completionRate'', Num (completionRate ts))]"

definition recentTasks :: "(jsval \<Rightarrow> int option) \<Rightarrow> object list \<Rightarrow> object list" where
  "recentTasks tv ts = take 5 (js_sort (by_updatedAt_desc tv) ts)"

definition get_dashboard :: "call list \<Rightarrow> (jsval \<Rightarrow> int option) \<Rightarrow> store \<Rightarrow> response \<times> store" where
  "get_dashboard fs tv s =
     (case send_Scan (raises fs 0) (page fs 0) TASKS_TABLE None s of
        Inl e \<Rightarrow> (failure 500 ''Error fetching dashboard stats'', s)
      | Inr result \<Rightarrow>
          (let ts = Items_or_empty result in
           (res_json 200
              [(''success'', Bool True),
               (''stats'', Obj (stats ts)),
               (''recentTasks'', Arr (map Obj (recentTasks tv ts)))], s)))"

section \<open>Boards, health check, fallbacks\<close>

definition get_boards :: "call list \<Rightarrow> store \<Rightarrow> response \<times> store" where
  "get_boards fs s =
     (case send_Scan (raises fs 0) (page fs 0) BOARDS_TABLE None s of
        Inl e \<Rightarrow> (failure 500 ''Error fetching boards'', s)
      | Inr result \<Rightarrow>
          (let bs = Items_or_empty result in
           (res_json 200
              [(''success'', Bool True),
               (''boards'', Arr (map Obj bs)),
               (''total'', Num (int (length bs)))], s)))"

definition get_health :: "string \<Rightarrow> response" where
  "get_health now =
     res_json 200
       [(''success'', Bool True),
        (''message'', Str ''TaskBoard API is running!''),
        (''timestamp'', Str now),
        (''version'', Str ''1.0.0'')]"

definition not_found_handler :: response where
  "not_found_handler = failure 404 ''Endpoint not found''"

definition global_error_handler :: response where
  "global_error_handler = failure 500 ''Internal server error''"

section \<open>Routing\<close>

text \<open>
  A request as the application sees it: its method, which of the registered path
  patterns its path matches, the \<^verbatim>\<open>boardId\<close> of its query (\<open>Undefined\<close> when the query has
  none), its parsed body, whether the middleware in front of the routes raised (a body
  that is not JSON, a path that cannot be decoded), and whether it carries a validator
  (\<^verbatim>\<open>If-None-Match\<close>) that matches the body the handler is about to send.
\<close>

datatype http_method = GET | HEAD | POST | PUT | DELETE | OPTIONS | Other_method

datatype path_pattern = Tasks | Tasks_id string | Dashboard | Boards | Health | Other_path

record http_request =
  req_method :: http_method
  req_path :: path_pattern
  req_boardId :: jsval
  req_body :: object
  req_raises :: bool
  req_revalidates :: bool

text \<open>What a request takes from outside the handler and the store.\<close>

record ambient =
  store_calls :: "call list"
  generated_id :: string
  first_date :: string
  second_date :: string
  time_value :: "jsval \<Rightarrow> int option"

text \<open>
  The routes in the order they are registered, and \<^verbatim>\<open>app.use('*', ...)\<close> for everything
  else. A HEAD request runs the route registered for GET.
\<close>

fun as_get :: "http_method \<Rightarrow> http_method" where
  "as_get HEAD = GET"
| "as_get m = m"

fun routes :: "ambient \<Rightarrow> http_method \<Rightarrow> path_pattern \<Rightarrow> jsval \<Rightarrow> object \<Rightarrow> store \<Rightarrow> response \<times> store" where
  "routes a GET Tasks boardId body s = get_tasks (store_calls a) boardId s"
| "routes a GET (Tasks_id ident) boardId body s = get_task (store_calls a) ident s"
| "routes a POST Tasks boardId body s =
     post_tasks (store_calls a) (generated_id a) (first_date a) (second_date a) body s"
| "routes a PUT (Tasks_id ident) boardId body s =
     put_task (store_calls a) (first_date a) ident body s"
| "routes a DELETE (Tasks_id ident) boardId body s = delete_task (store_calls a) ident s"
| "routes a GET Dashboard boardId body s = get_dashboard (store_calls a) (time_value a) s"
| "routes a GET Boards boardId body s = get_boards (store_calls a) s"
| "routes a GET Health boardId body s = (get_health (first_date a), s)"
| "routes a m p boardId body s = (not_found_handler, s)"

text \<open>
  What goes back to the client: the status code, and the body unless none is sent.
  \<^verbatim>\<open>app.use(cors())\<close> comes first and answers every OPTIONS request itself, with 204 and
  no body, before any route is looked at. An error raised by the middleware goes to the
  error handler. \<^verbatim>\<open>res.json\<close> sends through the framework, which answers 304 with no body
  to a GET or HEAD request whose validator matches the body about to be sent with a 2xx
  status, and sends no body in answer to a HEAD request.
\<close>

record sent =
  sent_status :: nat
  sent_body :: "object option"

definition fresh :: "http_request \<Rightarrow> response \<Rightarrow> bool" where
  "fresh req r =
     ((req_method req = GET \<or> req_method req = HEAD) \<and>
      200 \<le> status_code r \<and> status_code r < 300 \<and> req_revalidates req)"

definition handle :: "ambient \<Rightarrow> http_request \<Rightarrow> store \<Rightarrow> sent \<times> store" where
  "handle a req s =
     (if req_method req = OPTIONS then (\<lparr>sent_status = 204, sent_body = None\<rparr>, s)
      else
        (let (r, s') =
               (if req_raises req then (global_error_handler, s)
                else routes a (as_get (req_method req)) (req_path req) (req_boardId req)
                       (req_body req) s)
         in (\<lparr>sent_status = (if fresh req r then 304 else status_code r),
              sent_body =
                (if fresh req r \<or> req_method req = HEAD then None else Some (json r))\<rparr>, s')))"

section \<open>Reading a response\<close>

text \<open>What a client finds in the body of a task list.\<close>

fun the_Arr :: "jsval \<Rightarrow> jsval list" where
  "the_Arr (Arr xs) = xs"
| "the_Arr _ = []"

fun the_Obj :: "jsval \<Rightarrow> object" where
  "the_Obj (Obj kvs) = kvs"
| "the_Obj _ = []"

definition response_tasks :: "response \<Rightarrow> object list" where
  "response_tasks r = map the_Obj (the_Arr (attr (json r) ''tasks''))"

definition response_group :: "response \<Rightarrow> string \<Rightarrow> object list" where
  "response_group r g =
     map the_Obj (the_Arr (attr (the_Obj (attr (json r) ''tasksByStatus'')) g))"

section \<open>A body without one of its fields\<close>

text \<open>The object with the property \<open>k\<close> removed: what the client sends when it leaves \<open>k\<close> out.\<close>

definition without :: "string \<Rightarrow> object \<Rightarrow> object" where
  "without k ob = filter (\<lambda>p. fst p \<noteq> k) ob"

section \<open>The response envelope\<close>

text \<open>
  The success codes, and what every body is to carry: \<^verbatim>\<open>success\<close>, \<^verbatim>\<open>true\<close> exactly under a
  success code, and a string \<^verbatim>\<open>error\<close> otherwise.
\<close>

definition success_code :: "nat \<Rightarrow> bool" where
  "success_code c = (c = 200 \<or> c = 201)"

fun is_Str :: "jsval \<Rightarrow> bool" where
  "is_Str (Str s) = True"
| "is_Str _ = False"

definition enveloped :: "response \<Rightarrow> bool" where
  "enveloped r =
     (attr (json r) ''success'' = Bool (success_code (status_code r)) \<and>
      (\<not> success_code (status_code r) \<longrightarrow> is_Str (attr (json r) ''error'')))"

definition known_code :: "nat \<Rightarrow> bool" where
  "known_code c = (c \<in> {200, 201, 400, 404, 500})"

section \<open>Example data\<close>

definition board_b1 :: object where
  "board_b1 = [(''id'', Str ''b1''), (''name'', Str ''Sprint 1'')]"

definition task_1 :: object where
  "task_1 =
     [(''id'', Str ''1''),
      (''boardId'', Str ''b1''),
      (''title'', Str ''T1''),
      (''description'', Str ''first''),
      (''status'', Str ''todo''),
      (''createdAt'', Str ''2024-01-01T00:00:00.000Z''),
      (''updatedAt'', Str ''2024-01-01T00:00:00.000Z'')]"

definition example_store :: store where
  "example_store = \<lparr>task_items = [task_1], board_items = [board_b1]\<rparr>"

definition task_2 :: object where
  "task_2 =
     [(''id'', Str ''2''),
      (''boardId'', Str ''b2''),
      (''title'', Str ''T2''),
      (''description'', Str ''''),
      (''status'', Str ''done''),
      (''createdAt'', Str ''2024-01-03T00:00:00.000Z''),
      (''updatedAt'', Str ''2024-01-04T00:00:00.000Z'')]"

definition task_3 :: object where
  "task_3 =
     [(''id'', Str ''3''),
      (''boardId'', Str ''b1''),
      (''title'', Str ''T3''),
      (''description'', Str ''''),
      (''status'', Str ''blocked''),
      (''createdAt'', Str ''2024-01-05T00:00:00.000Z''),
      (''updatedAt'', Str ''2024-01-05T00:00:00.000Z'')]"

definition two_board_store :: store where
  "two_board_store =
     \<lparr>task_items = [task_1, task_2, task_3],
      board_items = [board_b1, [(''id'', Str ''b2'')]]\<rparr>"

text \<open>Forty tasks, the first 23 of them done.\<close>

fun decimal :: "nat \<Rightarrow> string" where
  "decimal n =
     (if n < 10 then [''0123456789'' ! n]
      else decimal (n div 10) @ [''0123456789'' ! (n mod 10)])"

declare decimal.simps [simp del]

definition dashboard_task :: "nat \<Rightarrow> object" where
  "dashboard_task n =
     [(''id'', Str (''t'' @ decimal n)),
      (''boardId'', Str ''b1''),
      (''title'', Str ''task''),
      (''description'', Str ''''),
      (''status'', Str (if n < 23 then ''done'' else ''todo'')),
      (''createdAt'', Str ''2024-03-01T00:00:00.000Z''),
      (''updatedAt'', Str ''2024-03-01T00:00:00.000Z'')]"

definition forty_tasks :: "object list" where
  "forty_tasks = map dashboard_task [0..<40]"

text \<open>Requests, and what they take from outside.\<close>

definition no_dates :: "jsval \<Rightarrow> int option" where
  "no_dates v = None"

definition example_ambient :: ambient where
  "example_ambient =
     \<lparr>store_calls = [],
      generated_id = ''2'',
      first_date = ''2024-01-02T00:00:00.000Z'',
      second_date = ''2024-01-02T00:00:00.000Z'',
      time_value = no_dates\<rparr>"

definition failing_ambient :: ambient where
  "failing_ambient = example_ambient\<lparr>store_calls := [Throws]\<rparr>"

definition delete_request :: http_request where
  "delete_request =
     \<lparr>req_method = DELETE, req_path = Tasks_id ''1'', req_boardId = Undefined, req_body = [],
      req_raises = False, req_revalidates = False\<rparr>"

definition options_request :: http_request where
  "options_request =
     \<lparr>req_method = OPTIONS, req_path = Tasks, req_boardId = Undefined, req_body = [],
      req_raises = False, req_revalidates = False\<rparr>"

definition head_request :: http_request where
  "head_request =
     \<lparr>req_method = HEAD, req_path = Health, req_boardId = Undefined, req_body = [],
      req_raises = False, req_revalidates = False\<rparr>"

section \<open>Properties of the store operations\<close>

lemma attr_assign: "attr (assign k v it) k' = (if k' = k then v else attr it k')"
  by (induction it) (auto simp: attr_def)

lemma apply_set_Nil: "apply_set [] it = it"
  by (simp add: apply_set_def)

lemma apply_set_Cons: "apply_set ((k, v) # sets) it = apply_set sets (assign k v it)"
  by (simp add: apply_set_def)

lemma attr_apply_set:
  "attr (apply_set sets it) k = (case map_of (rev sets) k of None \<Rightarrow> attr it k | Some v \<Rightarrow> v)"
proof (induction sets arbitrary: it)
  case Nil
  show ?case by (simp add: apply_set_Nil)
next
  case (Cons p sets)
  obtain k' v where p: "p = (k', v)" by (cases p)
  show ?case
    unfolding p apply_set_Cons Cons.IH
    by (auto simp: attr_assign map_add_def split: option.splits)
qed

lemma find_map_if:
  assumes "\<And>x. P x \<Longrightarrow> P (f x)"
  shows "find P (map (\<lambda>x. if P x then f x else x) xs) = map_option f (find P xs)"
  using assms by (induction xs) auto

lemma list_ex_find: "list_ex P xs \<longleftrightarrow> find P xs \<noteq> None"
  by (induction xs) auto

lemma has_key_apply_set:
  "''id'' \<notin> fst ` set sets \<Longrightarrow> has_key k (apply_set sets it) = has_key k it"
  by (simp add: has_key_def attr_apply_set map_of_eq_None_iff[THEN iffD2] split: option.splits)

lemma get_item_update_item:
  assumes "get_item k tbl = Some old" "''id'' \<notin> fst ` set sets"
  shows "get_item k (update_item k sets tbl) = Some (apply_set sets old)"
    and "updated_attributes k sets tbl = apply_set sets old"
proof -
  have ex: "list_ex (has_key k) tbl"
    using assms(1) by (simp add: list_ex_find get_item_def)
  have "find (has_key k) (map (\<lambda>x. if has_key k x then apply_set sets x else x) tbl)
          = map_option (apply_set sets) (find (has_key k) tbl)"
    by (rule find_map_if) (simp add: has_key_apply_set assms(2))
  then show "get_item k (update_item k sets tbl) = Some (apply_set sets old)"
    using assms(1) ex by (simp add: get_item_def update_item_def)
  show "updated_attributes k sets tbl = apply_set sets old"
    using assms(1) by (simp add: updated_attributes_def)
qed

lemma find_append_None: "find P xs = None \<Longrightarrow> find P (xs @ ys) = find P ys"
  by (induction xs) (auto split: if_splits)

lemma get_item_put_item:
  "get_item (attr it ''id'') (put_item it tbl) = Some it"
proof (cases "list_ex (has_key (attr it ''id'')) tbl")
  case True
  have self: "has_key (attr it ''id'') it" by (simp add: has_key_def)
  have "find (has_key (attr it ''id'')) (map (\<lambda>x. if has_key (attr it ''id'') x then it else x) tbl)
          = map_option (\<lambda>_. it) (find (has_key (attr it ''id'')) tbl)"
    by (rule find_map_if) (rule self)
  then show ?thesis using True by (auto simp: get_item_def put_item_def list_ex_find)
next
  case False
  then have "find (has_key (attr it ''id'')) tbl = None" by (simp add: list_ex_find)
  then show ?thesis using False
    by (simp add: get_item_def put_item_def find_append_None has_key_def)
qed

lemma get_item_delete_item: "get_item k (delete_item k tbl) = None"
  by (simp add: get_item_def delete_item_def find_None_iff)

lemma delete_item_absent: "get_item k tbl = None \<Longrightarrow> delete_item k tbl = tbl"
  by (simp add: get_item_def delete_item_def find_None_iff filter_id_conv)

lemma put_task_runs:
  fixes now :: string and body :: object
  assumes "get_item (Str ident) (task_items s) = Some old"
    and "\<not> raises fs 0" and "\<not> raises fs 1"
    and "truthy (attr body ''status'') \<longrightarrow> attr body ''status'' \<in> set validStatuses"
  defines "sets \<equiv>
     [(''updatedAt'', Str now)] @
     (if truthy (attr body ''title'') then [(''title'', attr body ''title'')] else []) @
     (if attr body ''description'' \<noteq> Undefined
      then [(''description'', attr body ''description'')] else []) @
     (if truthy (attr body ''status'') then [(''status'', attr body ''status'')] else [])"
  shows "put_task fs now ident body s =
           (res_json 200 [(''success'', Bool True), (''task'', Obj (apply_set sets old))],
            s\<lparr>task_items := update_item (Str ident) sets (task_items s)\<rparr>)"
    and "get_item (Str ident)
           (task_items (s\<lparr>task_items := update_item (Str ident) sets (task_items s)\<rparr>))
         = Some (apply_set sets old)"
proof -
  have noid: "''id'' \<notin> fst ` set sets"
    by (auto simp: sets_def)
  note upd = get_item_update_item [OF assms(1) noid]
  show "get_item (Str ident)
           (task_items (s\<lparr>task_items := update_item (Str ident) sets (task_items s)\<rparr>))
         = Some (apply_set sets old)"
    using upd(1) by simp
  show "put_task fs now ident body s =
           (res_json 200 [(''success'', Bool True), (''task'', Obj (apply_set sets old))],
            s\<lparr>task_items := update_item (Str ident) sets (task_items s)\<rparr>)"
    using assms(1-4) upd(2)
    by (auto simp: put_task_def Let_def send_Get_def send_Update_def sets_def)
qed

lemma attr_without: "attr (without k ob) k' = (if k' = k then Undefined else attr ob k')"
  by (induction ob) (auto simp: attr_def without_def)

lemmas example_simps =
  example_store_def task_1_def board_b1_def attr_def get_item_def has_key_def raises_def
  validStatuses_def

section \<open>Creating a task: validation\<close>

text \<open>
  C1, as the code has it. POST /tasks validates in a fixed order and answers at the
  first check that fails: a title that is missing (falsy) gives 400 before anything else
  is looked at; then a missing board id gives 400; then the board is looked up by key,
  which gives 500 when the lookup throws and 404 when the board is absent; then a status
  that is a non-empty (truthy) value outside the three gives 400. In each of these cases,
  and whenever the answer is not 201, the store is left as it was. A status that is
  falsy (the empty string, \<^verbatim>\<open>null\<close>, \<^verbatim>\<open>0\<close>, \<^verbatim>\<open>false\<close>) is read as no status and is not
  rejected: with the board there and the store calls going through, the answer is 201.
\<close>

theorem post_tasks_validation_order:
  "(\<not> truthy (attr body ''title'') \<longrightarrow>
      post_tasks fs gid t1 t2 body s = (failure 400 ''Title is required'', s)) \<and>
   (truthy (attr body ''title'') \<and> \<not> truthy (attr body ''boardId'') \<longrightarrow>
      post_tasks fs gid t1 t2 body s = (failure 400 ''Board ID is required'', s)) \<and>
   (truthy (attr body ''title'') \<and> truthy (attr body ''boardId'') \<and> raises fs 0 \<longrightarrow>
      post_tasks fs gid t1 t2 body s = (failure 500 ''Error creating task'', s)) \<and>
   (truthy (attr body ''title'') \<and> truthy (attr body ''boardId'') \<and> \<not> raises fs 0 \<and>
    get_item (attr body ''boardId'') (board_items s) = None \<longrightarrow>
      post_tasks fs gid t1 t2 body s = (failure 404 ''Board not found'', s)) \<and>
   (truthy (attr body ''title'') \<and> truthy (attr body ''boardId'') \<and> \<not> raises fs 0 \<and>
    get_item (attr body ''boardId'') (board_items s) \<noteq> None \<and>
    truthy (attr body ''status'') \<and> attr body ''status'' \<notin> set validStatuses \<longrightarrow>
      post_tasks fs gid t1 t2 body s =
        (failure 400 ''Invalid status. Must be: todo, in-progress, or done'', s)) \<and>
   (truthy (attr body ''title'') \<and> truthy (attr body ''boardId'') \<and> \<not> raises fs 0 \<and>
    get_item (attr body ''boardId'') (board_items s) \<noteq> None \<and>
    \<not> truthy (attr body ''status'') \<and> \<not> raises fs 1 \<longrightarrow>
      status_code (fst (post_tasks fs gid t1 t2 body s)) = 201) \<and>
   (status_code (fst (post_tasks fs gid t1 t2 body s)) \<noteq> 201 \<longrightarrow>
      snd (post_tasks fs gid t1 t2 body s) = s)"
  by (auto simp: post_tasks_def Let_def send_Get_def send_Put_def or_else_def res_json_def
      validStatuses_def split: option.splits sum.splits)

theorem post_tasks_validation_order_witness:
  "post_tasks [] ''2'' ''t'' ''t'' [(''boardId'', Str ''b1'')] example_store
     = (failure 400 ''Title is required'', example_store) \<and>
   post_tasks [] ''2'' ''t'' ''t'' [(''title'', Str ''T2'')] example_store
     = (failure 400 ''Board ID is required'', example_store) \<and>
   post_tasks [Throws] ''2'' ''t'' ''t''
       [(''title'', Str ''T2''), (''boardId'', Str ''b1'')] example_store
     = (failure 500 ''Error creating task'', example_store) \<and>
   post_tasks [] ''2'' ''t'' ''t''
       [(''title'', Str ''T2''), (''boardId'', Str ''b9''), (''status'', Str ''archived'')]
       example_store
     = (failure 404 ''Board not found'', example_store) \<and>
   post_tasks [] ''2'' ''t'' ''t''
       [(''title'', Str ''T2''), (''boardId'', Str ''b1''), (''status'', Str ''archived'')]
       example_store
     = (failure 400 ''Invalid status. Must be: todo, in-progress, or done'', example_store) \<and>
   status_code (fst (post_tasks [] ''2'' ''t'' ''t''
       [(''title'', Str ''T2''), (''boardId'', Str ''b1''), (''status'', Null)]
       example_store)) = 201"
  using
    post_tasks_validation_order [of "[(''boardId'', Str ''b1'')]" "[]" "''2''" "''t''" "''t''" example_store]
    post_tasks_validation_order [of "[(''title'', Str ''T2'')]" "[]" "''2''" "''t''" "''t''" example_store]
    post_tasks_validation_order [of "[(''title'', Str ''T2''), (''boardId'', Str ''b1'')]"
       "[Throws]" "''2''" "''t''" "''t''" example_store]
    post_tasks_validation_order [of "[(''title'', Str ''T2''), (''boardId'', Str ''b9''), (''status'', Str ''archived'')]"
       "[]" "''2''" "''t''" "''t''" example_store]
    post_tasks_validation_order [of "[(''title'', Str ''T2''), (''boardId'', Str ''b1''), (''status'', Str ''archived'')]"
       "[]" "''2''" "''t''" "''t''" example_store]
    post_tasks_validation_order [of "[(''title'', Str ''T2''), (''boardId'', Str ''b1''), (''status'', Null)]"
       "[]" "''2''" "''t''" "''t''" example_store]
  by (simp add: example_simps)

text \<open>
  The empty string is a status outside the three values, and the request that carries it
  is answered 201 and its task written, with status \<^verbatim>\<open>todo\<close>: \<^verbatim>\<open>status || 'todo'\<close> comes
  before the check.
\<close>

theorem post_tasks_falsy_status_counterexample:
  "Str '''' \<notin> set validStatuses \<and>
   post_tasks [] ''9'' ''2024-01-09T00:00:00.000Z'' ''2024-01-09T00:00:00.000Z''
     [(''title'', Str ''T9''), (''boardId'', Str ''b1''), (''status'', Str '''')]
     example_store =
     (res_json 201
        [(''success'', Bool True),
         (''task'', Obj
           [(''id'', Str ''9''),
            (''boardId'', Str ''b1''),
            (''title'', Str ''T9''),
            (''description'', Str ''''),
            (''status'', Str ''todo''),
            (''createdAt'', Str ''2024-01-09T00:00:00.000Z''),
            (''updatedAt'', Str ''2024-01-09T00:00:00.000Z'')])],
      \<lparr>task_items =
         [task_1,
          [(''id'', Str ''9''),
           (''boardId'', Str ''b1''),
           (''title'', Str ''T9''),
           (''description'', Str ''''),
           (''status'', Str ''todo''),
           (''createdAt'', Str ''2024-01-09T00:00:00.000Z''),
           (''updatedAt'', Str ''2024-01-09T00:00:00.000Z'')]],
       board_items = [board_b1]\<rparr>)"
  by (simp add: post_tasks_def Let_def send_Get_def send_Put_def put_item_def or_else_def
      example_simps)

section \<open>Updating only the description\<close>

text \<open>
  C2, as the code has it. For an existing task and a PUT /tasks/:id whose body has no
  \<^verbatim>\<open>title\<close> and no \<^verbatim>\<open>status\<close>, with the store calls going through: the answer is 200 with
  the stored item; \<^verbatim>\<open>title\<close>, \<^verbatim>\<open>status\<close>, \<^verbatim>\<open>boardId\<close>, \<^verbatim>\<open>id\<close> and \<^verbatim>\<open>createdAt\<close> (and every
  attribute other than \<^verbatim>\<open>description\<close> and \<^verbatim>\<open>updatedAt\<close>) are what they were; \<^verbatim>\<open>description\<close>
  is the supplied value (the empty string included) and is what it was when the body has
  none; \<^verbatim>\<open>updatedAt\<close> is the clock reading the handler took, as an ISO string. Nothing
  compares that reading with the stored one.
\<close>

theorem put_task_description_only:
  assumes "get_item (Str ident) (task_items s) = Some old"
    and "\<not> raises fs 0" and "\<not> raises fs 1"
    and "attr body ''title'' = Undefined" and "attr body ''status'' = Undefined"
  shows "\<exists>new s'.
           put_task fs now ident body s =
             (res_json 200 [(''success'', Bool True), (''task'', Obj new)], s') \<and>
           get_item (Str ident) (task_items s') = Some new \<and>
           board_items s' = board_items s \<and>
           attr new ''title'' = attr old ''title'' \<and>
           attr new ''status'' = attr old ''status'' \<and>
           attr new ''boardId'' = attr old ''boardId'' \<and>
           attr new ''id'' = attr old ''id'' \<and>
           attr new ''createdAt'' = attr old ''createdAt'' \<and>
           (\<forall>k. k \<noteq> ''description'' \<and> k \<noteq> ''updatedAt'' \<longrightarrow> attr new k = attr old k) \<and>
           attr new ''description'' =
             (if attr body ''description'' = Undefined then attr old ''description''
              else attr body ''description'') \<and>
           attr new ''updatedAt'' = Str now"
proof -
  let ?sets = "[(''updatedAt'', Str now)] @
     (if truthy (attr body ''title'') then [(''title'', attr body ''title'')] else []) @
     (if attr body ''description'' \<noteq> Undefined
      then [(''description'', attr body ''description'')] else []) @
     (if truthy (attr body ''status'') then [(''status'', attr body ''status'')] else [])"
  have valid: "truthy (attr body ''status'') \<longrightarrow> attr body ''status'' \<in> set validStatuses"
    by (simp add: assms(5))
  note run = put_task_runs [OF assms(1-3) valid, of now]
  have frame: "attr (apply_set ?sets old) k =
       (if k = ''updatedAt'' then Str now
        else if k = ''description'' \<and> attr body ''description'' \<noteq> Undefined
             then attr body ''description''
        else attr old k)" for k
    by (simp add: attr_apply_set assms(4,5))
  let ?new = "apply_set ?sets old"
  let ?s' = "s\<lparr>task_items := update_item (Str ident) ?sets (task_items s)\<rparr>"
  have "put_task fs now ident body s =
          (res_json 200 [(''success'', Bool True), (''task'', Obj ?new)], ?s')"
    by (rule run(1))
  moreover have "get_item (Str ident) (task_items ?s') = Some ?new"
    by (rule run(2))
  moreover have "board_items ?s' = board_items s"
    by simp
  moreover have "attr ?new ''title'' = attr old ''title''"
    and "attr ?new ''status'' = attr old ''status''"
    and "attr ?new ''boardId'' = attr old ''boardId''"
    and "attr ?new ''id'' = attr old ''id''"
    and "attr ?new ''createdAt'' = attr old ''createdAt''"
    by (simp_all only: frame) simp_all
  moreover have "\<forall>k. k \<noteq> ''description'' \<and> k \<noteq> ''updatedAt'' \<longrightarrow> attr ?new k = attr old k"
    by (simp only: frame) simp
  moreover have "attr ?new ''description'' =
             (if attr body ''description'' = Undefined then attr old ''description''
              else attr body ''description'')"
    by (simp only: frame) simp
  moreover have "attr ?new ''updatedAt'' = Str now"
    by (simp only: frame) simp
  ultimately show ?thesis
    by blast
qed

theorem put_task_description_only_witness:
  "\<exists>new s'.
     put_task [] ''2024-02-01T00:00:00.000Z'' ''1'' [(''description'', Str '''')] example_store =
       (res_json 200 [(''success'', Bool True), (''task'', Obj new)], s') \<and>
     get_item (Str ''1'') (task_items s') = Some new \<and>
     board_items s' = board_items example_store \<and>
     attr new ''title'' = attr task_1 ''title'' \<and>
     attr new ''status'' = attr task_1 ''status'' \<and>
     attr new ''boardId'' = attr task_1 ''boardId'' \<and>
     attr new ''id'' = attr task_1 ''id'' \<and>
     attr new ''createdAt'' = attr task_1 ''createdAt'' \<and>
     (\<forall>k. k \<noteq> ''description'' \<and> k \<noteq> ''updatedAt'' \<longrightarrow> attr new k = attr task_1 k) \<and>
     attr new ''description'' =
       (if attr [(''description'', Str '''')] ''description'' = Undefined
        then attr task_1 ''description''
        else attr [(''description'', Str '''')] ''description'') \<and>
     attr new ''updatedAt'' = Str ''2024-02-01T00:00:00.000Z''"
  by (rule put_task_description_only) (simp_all add: example_simps)

text \<open>
  The new \<^verbatim>\<open>updatedAt\<close> is not always strictly later than the old one: when the handler
  reads the clock in the millisecond the stored value was stamped in, the stored value
  does not move.
\<close>

theorem put_task_same_instant_counterexample:
  "attr task_1 ''updatedAt'' = Str ''2024-01-01T00:00:00.000Z'' \<and>
   get_item (Str ''1'') (task_items example_store) = Some task_1 \<and>
   put_task [] ''2024-01-01T00:00:00.000Z'' ''1'' [(''description'', Str ''second'')] example_store =
     (res_json 200
        [(''success'', Bool True),
         (''task'', Obj
           [(''id'', Str ''1''),
            (''boardId'', Str ''b1''),
            (''title'', Str ''T1''),
            (''description'', Str ''second''),
            (''status'', Str ''todo''),
            (''createdAt'', Str ''2024-01-01T00:00:00.000Z''),
            (''updatedAt'', Str ''2024-01-01T00:00:00.000Z'')])],
      \<lparr>task_items =
         [[(''id'', Str ''1''),
           (''boardId'', Str ''b1''),
           (''title'', Str ''T1''),
           (''description'', Str ''second''),
           (''status'', Str ''todo''),
           (''createdAt'', Str ''2024-01-01T00:00:00.000Z''),
           (''updatedAt'', Str ''2024-01-01T00:00:00.000Z'')]],
       board_items = [board_b1]\<rparr>)"
  by (simp add: put_task_def Let_def send_Get_def send_Update_def updated_attributes_def
      update_item_def apply_set_def example_simps)

section \<open>Listing tasks\<close>

lemma the_Obj_Obj: "map (the_Obj \<circ> Obj) ts = ts"
  by (induction ts) auto

lemma get_tasks_ok:
  assumes "get_tasks fs boardId s = (r, s')" and "status_code r = 200"
  defines "ts \<equiv> scan_items (if truthy boardId then Some boardId else None)
                  (read_page (page fs 0) (task_items s))"
  shows "r = res_json 200
              [(''success'', Bool True),
               (''tasks'', Arr (map Obj ts)),
               (''tasksByStatus'', Obj (organizedTasks ts)),
               (''total'', Num (int (length ts))),
               (''boardId'', or_else boardId Null)]"
    and "s' = s"
  using assms(1,2) unfolding ts_def
  by (auto simp: get_tasks_def send_Scan_def Items_or_empty_def Let_def failure_def res_json_def
      split: if_splits)

lemma response_tasks_res_json:
  "response_tasks (res_json c ((''success'', v) # (''tasks'', Arr (map Obj ts)) # rest)) = ts"
  by (simp add: response_tasks_def res_json_def attr_def the_Obj_Obj)

lemma response_group_res_json:
  "g \<in> {''todo'', ''in-progress'', ''done''} \<Longrightarrow>
   response_group
     (res_json c ((''success'', v) # (''tasks'', w) # (''tasksByStatus'', Obj (organizedTasks ts)) # rest)) g
   = with_status g ts"
  by (auto simp: response_group_def res_json_def attr_def organizedTasks_def the_Obj_Obj)

lemma length_three_filters:
  assumes "\<And>x. \<not> (P x \<and> Q x)" "\<And>x. \<not> (P x \<and> R x)" "\<And>x. \<not> (Q x \<and> R x)"
  shows "length (filter P xs) + length (filter Q xs) + length (filter R xs) \<le> length xs"
  using assms by (induction xs) auto

lemma set_read_page: "set (read_page pg tbl) \<subseteq> set tbl"
  by (auto simp: read_page_def split: option.splits dest: in_set_takeD)

text \<open>
  C3, as the code has it. In every successful answer of GET /tasks, each of the three
  groups of \<^verbatim>\<open>tasksByStatus\<close> is the flat list \<^verbatim>\<open>tasks\<close> restricted to the tasks with that
  status, in the order of the flat list. A task whose status is none of the three is in
  no group and stays in the flat list, \<^verbatim>\<open>total\<close> is the length of the flat list, and the
  three group sizes add up to at most \<^verbatim>\<open>total\<close>. The flat list holds tasks of the table
  only. With a non-empty \<^verbatim>\<open>boardId\<close> in the query it is the tasks with that board id among
  those the scan read, so every task in it has that board id. A \<^verbatim>\<open>boardId\<close> that is empty
  is read as no filter: the flat list is everything the scan read, and the answer says
  \<^verbatim>\<open>boardId: null\<close>.
\<close>

theorem get_tasks_groups:
  assumes "get_tasks fs boardId s = (r, s')" and "status_code r = 200"
  shows
    "response_group r ''todo'' =
       filter (\<lambda>task. attr task ''status'' = Str ''todo'') (response_tasks r) \<and>
     response_group r ''in-progress'' =
       filter (\<lambda>task. attr task ''status'' = Str ''in-progress'') (response_tasks r) \<and>
     response_group r ''done'' =
       filter (\<lambda>task. attr task ''status'' = Str ''done'') (response_tasks r) \<and>
     (\<forall>task \<in> set (response_tasks r). attr task ''status'' \<notin> set validStatuses \<longrightarrow>
        task \<notin> set (response_group r ''todo'') \<and>
        task \<notin> set (response_group r ''in-progress'') \<and>
        task \<notin> set (response_group r ''done'')) \<and>
     attr (json r) ''total'' = Num (int (length (response_tasks r))) \<and>
     length (response_group r ''todo'') + length (response_group r ''in-progress'') +
       length (response_group r ''done'') \<le> length (response_tasks r) \<and>
     set (response_tasks r) \<subseteq> set (task_items s) \<and>
     (truthy boardId \<longrightarrow>
        response_tasks r =
          filter (\<lambda>task. attr task ''boardId'' = boardId) (read_page (page fs 0) (task_items s)) \<and>
        (\<forall>task \<in> set (response_tasks r). attr task ''boardId'' = boardId)) \<and>
     (\<not> truthy boardId \<longrightarrow>
        response_tasks r = read_page (page fs 0) (task_items s) \<and>
        attr (json r) ''boardId'' = Null)"
proof -
  let ?read = "read_page (page fs 0) (task_items s)"
  let ?ts = "scan_items (if truthy boardId then Some boardId else None) ?read"
  note r = get_tasks_ok(1) [OF assms]
  have tasks: "response_tasks r = ?ts"
    unfolding r by (rule response_tasks_res_json)
  have group: "response_group r g = with_status g ?ts"
    if "g \<in> {''todo'', ''in-progress'', ''done''}" for g
    unfolding r using that by (rule response_group_res_json)
  have g1: "response_group r ''todo'' = with_status ''todo'' ?ts"
    and g2: "response_group r ''in-progress'' = with_status ''in-progress'' ?ts"
    and g3: "response_group r ''done'' = with_status ''done'' ?ts"
    by (simp_all add: group)
  have total: "attr (json r) ''total'' = Num (int (length ?ts))"
    unfolding r by (simp add: res_json_def attr_def)
  have echo: "attr (json r) ''boardId'' = or_else boardId Null"
    unfolding r by (simp add: res_json_def attr_def)
  have sum: "length (with_status ''todo'' ?ts) + length (with_status ''in-progress'' ?ts) +
               length (with_status ''done'' ?ts) \<le> length ?ts"
    unfolding with_status_def by (rule length_three_filters) auto
  have flt: "scan_items (Some boardId) ?read =
               filter (\<lambda>task. attr task ''boardId'' = boardId) ?read" if "truthy boardId"
  proof -
    have "boardId \<noteq> Undefined" using that by auto
    then have "(map_of x ''boardId'' = Some boardId) = (attr x ''boardId'' = boardId)" for x
      by (auto simp: attr_def split: option.splits)
    then show ?thesis by (simp add: scan_items_def)
  qed
  have sub: "set ?ts \<subseteq> set (task_items s)"
    using set_read_page [of "page fs 0" "task_items s"]
    by (auto simp: scan_items_def)
  show ?thesis
    unfolding g1 g2 g3 tasks total echo
    using sum flt sub
    by (auto simp: with_status_def validStatuses_def scan_items_def or_else_def)
qed

theorem get_tasks_groups_witness:
  "response_tasks (fst (get_tasks [] (Str ''b1'') two_board_store)) = [task_1, task_3] \<and>
   response_group (fst (get_tasks [] (Str ''b1'') two_board_store)) ''todo'' = [task_1] \<and>
   response_group (fst (get_tasks [] (Str ''b1'') two_board_store)) ''in-progress'' = [] \<and>
   response_group (fst (get_tasks [] (Str ''b1'') two_board_store)) ''done'' = [] \<and>
   attr (json (fst (get_tasks [] (Str ''b1'') two_board_store))) ''total'' = Num 2 \<and>
   response_tasks (fst (get_tasks [Returns_page 2] (Str ''b1'') two_board_store)) = [task_1]"
proof -
  obtain r s' where run: "get_tasks [] (Str ''b1'') two_board_store = (r, s')"
    by (cases "get_tasks [] (Str ''b1'') two_board_store")
  have ok: "status_code r = 200"
    using run
    by (auto simp: get_tasks_def send_Scan_def raises_def res_json_def Let_def)
  note th = get_tasks_groups [OF run ok]
  have r: "fst (get_tasks [] (Str ''b1'') two_board_store) = r"
    by (simp add: run)
  have flat: "response_tasks r = [task_1, task_3]"
    using th
    by (simp add: two_board_store_def task_1_def task_2_def task_3_def attr_def page_def
        read_page_def)
  have gt: "response_group r ''todo'' = [task_1]"
    and gp: "response_group r ''in-progress'' = []"
    and gd: "response_group r ''done'' = []"
    using th unfolding flat by (simp_all add: task_1_def task_3_def attr_def)
  have total: "attr (json r) ''total'' = Num 2"
    using th unfolding flat by simp
  obtain q s'' where run2: "get_tasks [Returns_page 2] (Str ''b1'') two_board_store = (q, s'')"
    by (cases "get_tasks [Returns_page 2] (Str ''b1'') two_board_store")
  have ok2: "status_code q = 200"
    using run2
    by (auto simp: get_tasks_def send_Scan_def raises_def res_json_def Let_def)
  have q: "fst (get_tasks [Returns_page 2] (Str ''b1'') two_board_store) = q"
    by (simp add: run2)
  have paged: "response_tasks q = [task_1]"
    using get_tasks_groups [OF run2 ok2]
    by (simp add: two_board_store_def task_1_def task_2_def task_3_def attr_def page_def
        read_page_def)
  show ?thesis
    unfolding r q by (simp add: flat gt gp gd total paged)
qed

text \<open>
  \<^verbatim>\<open>GET /tasks?boardId=\<close> gives the parameter, with the empty string as its value. The
  answer lists every task of the table, none of which has that board id, and says
  \<^verbatim>\<open>boardId: null\<close>.
\<close>

theorem get_tasks_empty_boardId_counterexample:
  "fst (get_tasks [] (Str '''') two_board_store) =
     res_json 200
       [(''success'', Bool True),
        (''tasks'', Arr [Obj task_1, Obj task_2, Obj task_3]),
        (''tasksByStatus'', Obj
          [(''todo'', Arr [Obj task_1]),
           (''in-progress'', Arr []),
           (''done'', Arr [Obj task_2])]),
        (''total'', Num 3),
        (''boardId'', Null)] \<and>
   attr task_1 ''boardId'' = Str ''b1'' \<and>
   attr task_2 ''boardId'' = Str ''b2'' \<and>
   attr task_3 ''boardId'' = Str ''b1''"
  by (simp add: get_tasks_def send_Scan_def scan_items_def read_page_def page_def raises_def
      Items_or_empty_def Let_def or_else_def organizedTasks_def with_status_def
      two_board_store_def task_1_def task_2_def task_3_def attr_def)

section \<open>Creating a task: the stored item\<close>

text \<open>
  C4, as the code has it. Whenever POST /tasks answers 201, the body carries exactly
  the item that was written under the generated id. Its \<^verbatim>\<open>status\<close> is the supplied status
  when that is a non-empty (truthy) value, which is then one of the three, and \<^verbatim>\<open>todo\<close>
  when the status is absent, empty or otherwise falsy; its \<^verbatim>\<open>description\<close> is the supplied
  one when truthy and the empty string otherwise; \<^verbatim>\<open>createdAt\<close> and \<^verbatim>\<open>updatedAt\<close> are the two
  clock readings the handler takes one after the other, so they are equal exactly when
  the clock did not move between the two.
\<close>

theorem post_tasks_created:
  assumes "post_tasks fs gid t1 t2 body s = (r, s')" and "status_code r = 201"
  shows "\<exists>task.
           r = res_json 201 [(''success'', Bool True), (''task'', Obj task)] \<and>
           s' = s\<lparr>task_items := put_item task (task_items s)\<rparr> \<and>
           get_item (Str gid) (task_items s') = Some task \<and>
           attr task ''status'' =
             (if truthy (attr body ''status'') then attr body ''status'' else Str ''todo'') \<and>
           attr task ''status'' \<in> set validStatuses \<and>
           attr task ''description'' =
             (if truthy (attr body ''description'') then attr body ''description'' else Str '''') \<and>
           attr task ''createdAt'' = Str t1 \<and>
           attr task ''updatedAt'' = Str t2 \<and>
           (attr task ''createdAt'' = attr task ''updatedAt'') = (t1 = t2) \<and>
           attr task ''id'' = Str gid \<and>
           attr task ''boardId'' = attr body ''boardId'' \<and>
           attr task ''title'' = attr body ''title''"
proof -
  let ?task = "[(''id'', Str gid), (''boardId'', attr body ''boardId''), (''title'', attr body ''title''),
     (''description'', or_else (attr body ''description'') (Str '''')),
     (''status'', or_else (attr body ''status'') (Str ''todo'')),
     (''createdAt'', Str t1), (''updatedAt'', Str t2)]"
  let ?s' = "s\<lparr>task_items := put_item ?task (task_items s)\<rparr>"
  have run: "r = res_json 201 [(''success'', Bool True), (''task'', Obj ?task)] \<and> s' = ?s' \<and>
             or_else (attr body ''status'') (Str ''todo'') \<in> set validStatuses"
    using assms
    by (auto simp: post_tasks_def Let_def send_Get_def send_Put_def failure_def res_json_def
        split: if_splits option.splits sum.splits)
  have id: "attr ?task ''id'' = Str gid"
    by (simp add: attr_def)
  have stored: "get_item (Str gid) (task_items ?s') = Some ?task"
    using get_item_put_item [of ?task "task_items s"] by (simp only: id) simp
  have "r = res_json 201 [(''success'', Bool True), (''task'', Obj ?task)]"
    and "s' = ?s'"
    using run by simp_all
  moreover have "get_item (Str gid) (task_items s') = Some ?task"
    using stored run by simp
  moreover have "attr ?task ''status'' =
             (if truthy (attr body ''status'') then attr body ''status'' else Str ''todo'')"
    and "attr ?task ''description'' =
             (if truthy (attr body ''description'') then attr body ''description'' else Str '''')"
    and "attr ?task ''createdAt'' = Str t1"
    and "attr ?task ''updatedAt'' = Str t2"
    and "(attr ?task ''createdAt'' = attr ?task ''updatedAt'') = (t1 = t2)"
    and "attr ?task ''boardId'' = attr body ''boardId''"
    and "attr ?task ''title'' = attr body ''title''"
    by (simp_all add: attr_def or_else_def)
  moreover have "attr ?task ''status'' \<in> set validStatuses"
    using run by (simp add: attr_def)
  ultimately show ?thesis
    using id by blast
qed

theorem post_tasks_created_witness:
  "\<exists>task.
     fst (post_tasks [] ''2'' ''2024-01-02T00:00:00.000Z'' ''2024-01-02T00:00:00.000Z''
            [(''title'', Str ''T2''), (''boardId'', Str ''b1''), (''status'', Str ''done'')]
            example_store)
       = res_json 201 [(''success'', Bool True), (''task'', Obj task)] \<and>
     get_item (Str ''2'')
       (task_items (snd (post_tasks [] ''2'' ''2024-01-02T00:00:00.000Z'' ''2024-01-02T00:00:00.000Z''
            [(''title'', Str ''T2''), (''boardId'', Str ''b1''), (''status'', Str ''done'')]
            example_store))) = Some task \<and>
     attr task ''status'' = Str ''done'' \<and>
     attr task ''description'' = Str '''' \<and>
     attr task ''createdAt'' = attr task ''updatedAt''"
proof -
  let ?body = "[(''title'', Str ''T2''), (''boardId'', Str ''b1''), (''status'', Str ''done'')]"
  obtain r s' where run:
    "post_tasks [] ''2'' ''2024-01-02T00:00:00.000Z'' ''2024-01-02T00:00:00.000Z'' ?body example_store
       = (r, s')"
    by (cases "post_tasks [] ''2'' ''2024-01-02T00:00:00.000Z'' ''2024-01-02T00:00:00.000Z'' ?body example_store")
  have created: "status_code r = 201"
    using run
    by (auto simp: post_tasks_def Let_def send_Get_def send_Put_def or_else_def res_json_def
        example_simps)
  have body: "attr ?body ''status'' = Str ''done''" "attr ?body ''description'' = Undefined"
    by (simp_all add: attr_def)
  from post_tasks_created [OF run created] body
  show ?thesis
    unfolding run by auto
qed

text \<open>
  A supplied status \<^verbatim>\<open>""\<close> is stored as \<^verbatim>\<open>todo\<close>, a supplied description \<^verbatim>\<open>null\<close> as the
  empty string, and two clock readings a millisecond apart give a \<^verbatim>\<open>createdAt\<close> that is
  not the \<^verbatim>\<open>updatedAt\<close>.
\<close>

theorem post_tasks_defaults_counterexample:
  "post_tasks [] ''2'' ''2024-01-02T00:00:00.000Z'' ''2024-01-02T00:00:00.001Z''
     [(''title'', Str ''T2''), (''boardId'', Str ''b1''), (''description'', Null), (''status'', Str '''')]
     example_store =
     (res_json 201
        [(''success'', Bool True),
         (''task'', Obj
           [(''id'', Str ''2''),
            (''boardId'', Str ''b1''),
            (''title'', Str ''T2''),
            (''description'', Str ''''),
            (''status'', Str ''todo''),
            (''createdAt'', Str ''2024-01-02T00:00:00.000Z''),
            (''updatedAt'', Str ''2024-01-02T00:00:00.001Z'')])],
      \<lparr>task_items =
         [task_1,
          [(''id'', Str ''2''),
           (''boardId'', Str ''b1''),
           (''title'', Str ''T2''),
           (''description'', Str ''''),
           (''status'', Str ''todo''),
           (''createdAt'', Str ''2024-01-02T00:00:00.000Z''),
           (''updatedAt'', Str ''2024-01-02T00:00:00.001Z'')]],
       board_items = [board_b1]\<rparr>) \<and>
   Str ''todo'' \<noteq> Str '''' \<and>
   Str '''' \<noteq> Null \<and>
   Str ''2024-01-02T00:00:00.000Z'' \<noteq> Str ''2024-01-02T00:00:00.001Z''"
  by (simp add: post_tasks_def Let_def send_Get_def send_Put_def put_item_def or_else_def
      example_simps)

section \<open>The dashboard\<close>

text \<open>
  With no task the rate is 0. When every \<^verbatim>\<open>updatedAt\<close> is a valid date, the comparator is
  consistent and \<^verbatim>\<open>recentTasks\<close> is the first five tasks of the list sorted by descending
  time, tasks of equal time staying in scan order; it has five tasks, or all of them when
  there are fewer.
\<close>

lemma completionRate_no_tasks: "completionRate [] = 0"
  by (simp add: completionRate_def)

lemma mset_insert_sorted: "mset (insert_sorted cmp x ys) = add_mset x (mset ys)"
  by (induction ys) auto

lemma set_insert_sorted: "set (insert_sorted cmp x ys) = insert x (set ys)"
  by (induction ys) auto

lemma js_sort_snoc: "js_sort cmp (xs @ [x]) = insert_sorted cmp x (js_sort cmp xs)"
  by (simp add: js_sort_def)

lemma mset_js_sort: "mset (js_sort cmp xs) = mset xs"
  by (induction xs rule: rev_induct) (simp_all add: js_sort_def mset_insert_sorted)

lemma set_js_sort: "set (js_sort cmp xs) = set xs"
  using mset_js_sort [of cmp xs] by (metis set_mset_mset)

lemma length_js_sort: "length (js_sort cmp xs) = length xs"
  using mset_js_sort [of cmp xs] by (metis size_mset)

lemma sorted_insert_sorted:
  assumes agree: "\<And>a b. a \<in> A \<Longrightarrow> b \<in> A \<Longrightarrow> negative (cmp a b) = (key b < key a)"
    and "x \<in> A" and "set ys \<subseteq> A"
    and "sorted_wrt (\<lambda>a b. key b \<le> key a) ys"
  shows "sorted_wrt (\<lambda>a b. (key b :: int) \<le> key a) (insert_sorted cmp x ys)"
  using assms(2-)
proof (induction ys)
  case Nil
  then show ?case by simp
next
  case (Cons y ys)
  have yx: "negative (cmp x y) = (key y < key x)"
    using agree [of x y] Cons.prems by simp
  show ?case
  proof (cases "key y < key x")
    case True
    then show ?thesis
      using Cons.prems yx by (auto simp: less_imp_le dest: order_trans)
  next
    case False
    then show ?thesis
      using Cons yx by (auto simp: set_insert_sorted)
  qed
qed

lemma filter_insert_sorted:
  assumes agree: "\<And>a b. a \<in> A \<Longrightarrow> b \<in> A \<Longrightarrow> negative (cmp a b) = (key b < key a)"
    and "x \<in> A" and "set ys \<subseteq> A"
    and "sorted_wrt (\<lambda>a b. key b \<le> key a) ys"
  shows "filter (\<lambda>y. key y = (k :: int)) (insert_sorted cmp x ys) =
           (if key x = k then filter (\<lambda>y. key y = k) ys @ [x] else filter (\<lambda>y. key y = k) ys)"
  using assms(2-)
proof (induction ys)
  case Nil
  then show ?case by simp
next
  case (Cons y ys)
  have yx: "negative (cmp x y) = (key y < key x)"
    using agree [of x y] Cons.prems by simp
  show ?case
  proof (cases "key y < key x")
    case True
    have "key z \<noteq> key x" if "z \<in> set (y # ys)" for z
      using that True Cons.prems(3) by auto
    then have "filter (\<lambda>z. key z = key x) (y # ys) = []"
      by (simp add: filter_empty_conv)
    then show ?thesis
      using True yx by auto
  next
    case False
    then show ?thesis
      using Cons yx by auto
  qed
qed

lemma js_sort_stable_descending:
  assumes agree: "\<And>a b. a \<in> set xs \<Longrightarrow> b \<in> set xs \<Longrightarrow> negative (cmp a b) = (key b < key a)"
  shows "js_sort cmp xs = sort_key (\<lambda>x. - (key x :: int)) xs"
proof -
  have inv: "sorted_wrt (\<lambda>a b. key b \<le> key a) (js_sort cmp zs) \<and>
             (\<forall>k. filter (\<lambda>y. key y = k) (js_sort cmp zs) = filter (\<lambda>y. key y = k) zs)"
    if "set zs \<subseteq> set xs" for zs
    using that
  proof (induction zs rule: rev_induct)
    case Nil
    show ?case by (simp add: js_sort_def)
  next
    case (snoc z zs)
    have sub: "set (js_sort cmp zs) \<subseteq> set xs" and z: "z \<in> set xs"
      using snoc.prems by (auto simp: set_js_sort)
    have ih: "sorted_wrt (\<lambda>a b. key b \<le> key a) (js_sort cmp zs)"
      and st: "\<And>k. filter (\<lambda>y. key y = k) (js_sort cmp zs) = filter (\<lambda>y. key y = k) zs"
      using snoc by auto
    show ?case
      unfolding js_sort_snoc
      using sorted_insert_sorted [OF agree z sub ih] filter_insert_sorted [OF agree z sub ih]
      by (simp add: st)
  qed
  show ?thesis
  proof (rule properties_for_sort_key [symmetric])
    show "mset (js_sort cmp xs) = mset xs"
      by (rule mset_js_sort)
    show "sorted (map (\<lambda>x. - key x) (js_sort cmp xs))"
      using inv [of xs] by (simp add: sorted_map)
    show "filter (\<lambda>x. - key k = - key x) (js_sort cmp xs) = filter (\<lambda>x. - key k = - key x) xs" for k
    proof -
      have "(\<lambda>x. - key k = - key x) = (\<lambda>y. key y = key k)"
        by auto
      then show ?thesis
        using inv [of xs] by simp
    qed
  qed
qed

lemma recentTasks_valid_dates:
  assumes "\<forall>task \<in> set ts. tv (attr task ''updatedAt'') \<noteq> None"
  shows "recentTasks tv ts =
           take 5 (sort_key (\<lambda>task. - the (tv (attr task ''updatedAt''))) ts)"
    and "length (recentTasks tv ts) = min 5 (length ts)"
proof -
  have "negative (by_updatedAt_desc tv a b) =
          (the (tv (attr b ''updatedAt'')) < the (tv (attr a ''updatedAt'')))"
    if a: "a \<in> set ts" and b: "b \<in> set ts" for a b
  proof -
    obtain ta tb where "tv (attr a ''updatedAt'') = Some ta" "tv (attr b ''updatedAt'') = Some tb"
      using a b assms by (meson not_Some_eq)
    then show ?thesis
      by (simp add: by_updatedAt_desc_def negative_def)
  qed
  then show "recentTasks tv ts =
           take 5 (sort_key (\<lambda>task. - the (tv (attr task ''updatedAt''))) ts)"
    unfolding recentTasks_def by (subst js_sort_stable_descending) auto
  show "length (recentTasks tv ts) = min 5 (length ts)"
    by (simp add: recentTasks_def length_js_sort min.commute)
qed

subsection \<open>How far double precision moves the rate\<close>

text \<open>
  Rounding to binary64 moves a positive number by at most the fraction \<open>2\<^sup>-\<^sup>5\<^sup>3\<close> of it, so
  the product \<^verbatim>\<open>(done / total) * 100\<close> is within \<open>2\<^sup>-\<^sup>4\<^sup>5\<close> of the exact percentage. A list
  has fewer than \<open>2\<^sup>3\<^sup>2\<close> tasks, so an exact percentage that is not half-way between two
  integers is further than that from any half-way point: there \<^verbatim>\<open>Math.round\<close> of the
  product is the rounded exact percentage. The two can differ only at an exact tie.
\<close>

lemma pow2_powi: "pow2 e = 2 powi e"
  by (simp add: pow2_def power_int_def power_one_over inverse_eq_divide)

lemma pow2_pos: "0 < pow2 e"
  by (simp add: pow2_powi)

lemma pow2_diff: "pow2 (a - b) = pow2 a / pow2 b"
  by (simp add: pow2_powi power_int_diff)

lemma pow2_succ: "pow2 (e + 1) = 2 * pow2 e"
  by (simp add: pow2_powi power_int_add)

lemma pow2_of_nat: "0 \<le> e \<Longrightarrow> pow2 e = of_int (2 ^ nat e)"
  by (simp add: pow2_def)

lemma exponent_bounds:
  assumes "0 < x"
  shows "pow2 (exponent x) \<le> x \<and> x < pow2 (exponent x + 1)"
proof -
  obtain a b where q: "quotient_of x = (a, b)"
    by (cases "quotient_of x")
  have b: "0 < b" using q by (rule quotient_of_denom_pos)
  have x: "x = of_int a / of_int b" using q by (rule quotient_of_div)
  have a: "0 < a" using assms b x by (simp add: zero_less_divide_iff)
  define A where "A = bitlen a"
  define B where "B = bitlen b"
  have A1: "1 \<le> A" and B1: "1 \<le> B"
    using a b by (auto simp: A_def B_def bitlen_alt_def)
  have ia: "2 ^ nat (A - 1) \<le> a" "a < 2 ^ nat A" and ib: "2 ^ nat (B - 1) \<le> b" "b < 2 ^ nat B"
    using bitlen_bounds [OF a] bitlen_bounds [OF b] by (simp_all add: A_def B_def)
  have ra: "pow2 (A - 1) \<le> of_int a" "of_int a < pow2 A"
    using ia A1 by (simp_all only: pow2_of_nat of_int_le_iff of_int_less_iff)
  have rb: "pow2 (B - 1) \<le> of_int b" "of_int b < pow2 B"
    using ib B1 by (simp_all only: pow2_of_nat of_int_le_iff of_int_less_iff)
  have "pow2 (A - 1) / pow2 B < of_int a / of_int b"
    using ra rb b pow2_pos [of "A - 1"] by (intro frac_less2) simp_all
  then have lo: "pow2 (A - B - 1) < x"
    by (simp add: x pow2_diff [symmetric] algebra_simps)
  have "of_int a / of_int b < pow2 A / pow2 (B - 1)"
    using ra rb a pow2_pos [of "B - 1"] by (intro frac_less) simp_all
  then have hi: "x < pow2 (A - B + 1)"
    by (simp add: x pow2_diff [symmetric] algebra_simps)
  have e: "exponent x = (if pow2 (A - B) \<le> x then A - B else A - B - 1)"
    by (simp add: exponent_def q A_def B_def)
  show ?thesis
    using lo hi by (auto simp: e)
qed

lemma round_half_even_error: "\<bar>of_int (round_half_even q) - q\<bar> \<le> 1 / 2"
proof -
  have "of_int \<lfloor>q\<rfloor> \<le> q" "q < of_int \<lfloor>q\<rfloor> + 1"
    by linarith+
  then show ?thesis
    by (auto simp: round_half_even_def Let_def)
qed

lemma binary64_error_pos:
  assumes "0 < x"
  shows "\<bar>binary64 x - x\<bar> \<le> x / 2 ^ 53"
proof -
  define ulp where "ulp = pow2 (exponent x - 52)"
  have ulp: "0 < ulp" by (simp add: ulp_def pow2_pos)
  have b: "binary64 x = of_int (round_half_even (x / ulp)) * ulp"
    using assms by (simp add: binary64_def ulp_def Let_def)
  have "binary64 x - x = (of_int (round_half_even (x / ulp)) - x / ulp) * ulp"
    using ulp by (simp add: b field_simps)
  then have "\<bar>binary64 x - x\<bar> = \<bar>of_int (round_half_even (x / ulp)) - x / ulp\<bar> * ulp"
    using ulp by (simp only: abs_mult abs_of_pos)
  also have "\<dots> \<le> (1 / 2) * ulp"
    using round_half_even_error [of "x / ulp"] ulp by (intro mult_right_mono) simp_all
  also have "\<dots> = pow2 (exponent x) / 2 ^ 53"
  proof -
    have "pow2 52 = 2 ^ 52"
      by (simp add: pow2_def)
    then show ?thesis
      unfolding ulp_def pow2_diff by simp
  qed
  also have "\<dots> \<le> x / 2 ^ 53"
    using exponent_bounds [OF assms] by (simp add: divide_right_mono)
  finally show ?thesis .
qed

lemma binary64_nonneg: "0 \<le> x \<Longrightarrow> 0 \<le> binary64 x"
proof -
  have "0 \<le> round_half_even q" if "0 \<le> q" for q
    using that by (auto simp: round_half_even_def Let_def)
  then show "0 \<le> x \<Longrightarrow> 0 \<le> binary64 x"
    using pow2_pos [of "exponent \<bar>x\<bar> - 52"]
    by (auto simp: binary64_def Let_def intro!: mult_nonneg_nonneg)
qed

lemma binary64_0: "binary64 0 = 0"
  by (simp add: binary64_def)

lemma product_error:
  fixes x :: rat
  assumes "0 \<le> x" and "x \<le> 1"
  shows "\<bar>binary64 (binary64 x * 100) - 100 * x\<bar> < 1 / 2 ^ 45"
proof (cases "x = 0")
  case True
  then show ?thesis by (simp add: binary64_0)
next
  case False
  then have x: "0 < x" using assms by simp
  define q where "q = binary64 x"
  define p where "p = binary64 (q * 100)"
  have e1: "\<bar>q - x\<bar> \<le> x / 2 ^ 53"
    unfolding q_def by (rule binary64_error_pos [OF x])
  have "x / 2 ^ 53 < x"
    using x by simp
  then have q: "0 < q * 100"
    using e1 by linarith
  have e2: "\<bar>p - q * 100\<bar> \<le> q * 100 / 2 ^ 53"
    unfolding p_def by (rule binary64_error_pos [OF q])
  have n53: "(2 :: rat) ^ 53 = 9007199254740992" and n45: "(2 :: rat) ^ 45 = 35184372088832"
    by simp_all
  have a: "q - x \<le> x / 9007199254740992" "x - q \<le> x / 9007199254740992"
    using e1 unfolding n53 by linarith+
  have b: "p - q * 100 \<le> q * 100 / 9007199254740992" "q * 100 - p \<le> q * 100 / 9007199254740992"
    using e2 unfolding n53 by linarith+
  have "p - 100 * x < 1 / 35184372088832" "100 * x - p < 1 / 35184372088832"
    using a b x assms(2) by linarith+
  then have "\<bar>p - 100 * x\<bar> < 1 / 2 ^ 45"
    unfolding n45 by linarith
  then show ?thesis
    by (simp add: p_def q_def)
qed

lemma Math_round_off_tie:
  fixes N M :: int and p :: rat
  assumes M: "0 < M" and "M \<le> 2 ^ 45" and nt: "N mod M \<noteq> 0"
    and close: "\<bar>p - (of_int N / of_int M - 1 / 2)\<bar> < 1 / 2 ^ 45"
  shows "Math_round p = N div M"
proof -
  define k where "k = N div M"
  define r where "r = N mod M"
  have r: "1 \<le> r" "r \<le> M - 1"
    using M nt pos_mod_sign [of M N] pos_mod_bound [of M N] unfolding r_def by linarith+
  have N: "N = M * k + r"
    by (simp add: k_def r_def)
  have frac: "of_int N / of_int M = (of_int k :: rat) + of_int r / of_int M"
    using M by (simp add: N field_simps)
  have Mle: "(of_int M :: rat) \<le> 2 ^ 45"
    using assms(2) by (metis of_int_le_iff of_int_numeral of_int_power)
  have gap: "(1 :: rat) / 2 ^ 45 \<le> 1 / of_int M"
    using M Mle by (simp add: frac_le)
  have lo: "(1 :: rat) / of_int M \<le> of_int r / of_int M"
    using r M by (simp add: divide_right_mono)
  have hi: "(of_int r :: rat) / of_int M \<le> 1 - 1 / of_int M"
  proof -
    have "(of_int r :: rat) \<le> of_int M - 1"
      using r(2) by (metis of_int_1 of_int_diff of_int_le_iff)
    then have "(of_int r :: rat) / of_int M \<le> (of_int M - 1) / of_int M"
      using M by (simp add: divide_right_mono)
    then show ?thesis
      using M by (simp add: diff_divide_distrib)
  qed
  have "of_int k \<le> p + 1 / 2" "p + 1 / 2 < of_int k + 1"
    using close gap lo hi unfolding frac by linarith+
  then show ?thesis
    unfolding Math_round_def k_def [symmetric] by (intro floor_unique) simp_all
qed

lemma round_as_div:
  fixes N M :: int
  assumes "0 < M"
  shows "round ((of_int N :: rat) / of_int M - 1 / 2) = N div M"
  using assms by (simp add: round_def floor_divide_of_int_eq)

lemma completionRate_off_ties:
  fixes ts :: "object list"
  defines "d \<equiv> length (with_status ''done'' ts)" and "t \<equiv> length ts"
  assumes "t < 2 ^ 32" and "(200 * d + t) mod (2 * t) \<noteq> 0"
  shows "completionRate ts = round (100 * of_nat d / of_nat t :: rat)"
proof (cases "t = 0")
  case True
  then show ?thesis by (simp add: completionRate_def t_def)
next
  case False
  then have t: "0 < t" by simp
  have dt: "d \<le> t" by (simp add: d_def t_def with_status_def)
  define x :: rat where "x = of_nat d / of_nat t"
  have x: "0 \<le> x" "x \<le> 1"
    using t dt by (simp_all add: x_def)
  define N :: int where "N = 200 * int d + int t"
  define M :: int where "M = 2 * int t"
  have M: "0 < M" "M \<le> 2 ^ 45"
    using t assms(3) by (simp_all add: M_def)
  have nt: "N mod M \<noteq> 0"
    using assms(4) unfolding N_def M_def
    by (metis int_ops(7) of_nat_numeral of_nat_add of_nat_mod of_nat_0 of_nat_eq_iff)
  have y: "100 * x = of_int N / of_int M - 1 / 2"
    using t by (simp add: x_def N_def M_def field_simps)
  have "Math_round (binary64 (binary64 x * 100)) = N div M"
    using product_error [OF x] by (intro Math_round_off_tie M nt) (simp add: y)
  moreover have "round (100 * x) = N div M"
    unfolding y using M(1) by (rule round_as_div)
  ultimately show ?thesis
    using t by (simp add: completionRate_def x_def d_def t_def)
qed

subsection \<open>A tie that rounds down\<close>

text \<open>
  C5 asks for \<^verbatim>\<open>completionRate\<close> to be \<open>round (100 \<times> done / total)\<close>. With 23 of 40 tasks
  done that is \<open>round 57.5 = 58\<close>. The handler computes \<^verbatim>\<open>Math.round((23 / 40) * 100)\<close> in
  double precision: the quotient is rounded to a value just below 0.575, the product to
  57.49999999999999, and the handler answers 57.
\<close>

theorem completionRate_23_of_40:
  "fst (get_dashboard [] tv \<lparr>task_items = forty_tasks, board_items = [board_b1]\<rparr>) =
     res_json 200
       [(''success'', Bool True),
        (''stats'', Obj
          [(''total'', Num 40),
           (''todo'', Num 17),
           (''inProgress'', Num 0),
           (''done'', Num 23),
           (''completionRate'', Num 57)]),
        (''recentTasks'', Arr (map Obj (recentTasks tv forty_tasks)))] \<and>
   round (100 * 23 / 40 :: rat) = 58"
proof
  have st: "stats forty_tasks =
     [(''total'', Num 40), (''todo'', Num 17), (''inProgress'', Num 0), (''done'', Num 23),
      (''completionRate'', Num 57)]"
    by code_simp
  show "fst (get_dashboard [] tv \<lparr>task_items = forty_tasks, board_items = [board_b1]\<rparr>) =
     res_json 200
       [(''success'', Bool True),
        (''stats'', Obj
          [(''total'', Num 40),
           (''todo'', Num 17),
           (''inProgress'', Num 0),
           (''done'', Num 23),
           (''completionRate'', Num 57)]),
        (''recentTasks'', Arr (map Obj (recentTasks tv forty_tasks)))]"
    by (simp add: get_dashboard_def send_Scan_def scan_items_def read_page_def page_def
        Items_or_empty_def raises_def
        Let_def st)
  show "round (100 * 23 / 40 :: rat) = 58"
    by code_simp
qed

section \<open>Updating a task: rejections\<close>




section \<open>Deleting a task\<close>

text \<open>
  C7. When the task exists and the store calls go through, deleting it answers 200 with
  the message, and the task is then absent from the table; deleting it again right away
  answers 404 and leaves the store as the first call left it.
\<close>

theorem delete_task_twice:
  assumes "get_item (Str ident) (task_items s) = Some t"
    and "\<not> raises fs 0" and "\<not> raises fs 1" and "\<not> raises fs' 0"
  shows "\<exists>s1. delete_task fs ident s =
            (res_json 200 [(''success'', Bool True), (''message'', Str ''Task deleted successfully'')], s1) \<and>
          get_item (Str ident) (task_items s1) = None \<and>
          board_items s1 = board_items s \<and>
          delete_task fs' ident s1 = (failure 404 ''Task not found'', s1)"
  using assms
  by (simp add: delete_task_def send_Get_def send_Delete_def get_item_delete_item)

theorem delete_task_twice_witness:
  "\<exists>s1. delete_task [] ''1'' example_store =
            (res_json 200 [(''success'', Bool True), (''message'', Str ''Task deleted successfully'')], s1) \<and>
          get_item (Str ''1'') (task_items s1) = None \<and>
          board_items s1 = board_items example_store \<and>
          delete_task [] ''1'' s1 = (failure 404 ''Task not found'', s1)"
  using delete_task_twice [of "''1''" example_store task_1 "[]" "[]"]
  by (simp add: example_simps)

section \<open>The envelope of every response\<close>

lemma status_code_failure: "status_code (failure c msg) = c"
  by (simp add: failure_def res_json_def)

lemma status_code_res_json: "status_code (res_json c ob) = c"
  by (simp add: res_json_def)

lemma known_code_simps:
  "known_code 200" "known_code 201" "known_code 400" "known_code 404" "known_code 500"
  by (simp_all add: known_code_def)

lemmas code_simps = status_code_failure status_code_res_json known_code_simps

lemma enveloped_failure: "c \<noteq> 200 \<Longrightarrow> c \<noteq> 201 \<Longrightarrow> enveloped (failure c msg)"
  by (simp add: enveloped_def failure_def res_json_def success_code_def attr_def)

lemma enveloped_success:
  "c = 200 \<or> c = 201 \<Longrightarrow> enveloped (res_json c ((''success'', Bool True) # rest))"
  by (auto simp: enveloped_def res_json_def success_code_def attr_def)

lemma enveloped_get_tasks: "enveloped (fst (get_tasks fs b s))"
  by (simp add: get_tasks_def Let_def enveloped_failure enveloped_success split: sum.splits)

lemma enveloped_get_task: "enveloped (fst (get_task fs i s))"
  by (simp add: get_task_def enveloped_failure enveloped_success split: sum.splits option.splits)

lemma enveloped_post_tasks: "enveloped (fst (post_tasks fs g t1 t2 b s))"
  by (simp add: post_tasks_def Let_def enveloped_failure enveloped_success
      split: sum.splits option.splits)

lemma put_task_response:
  "enveloped (fst (put_task fs n i b s)) \<and> known_code (status_code (fst (put_task fs n i b s)))"
proof (cases "send_Get (raises fs 0) TASKS_TABLE (Str i) s")
  case (Inl e)
  then show ?thesis
    by (simp add: put_task_def Let_def enveloped_failure code_simps)
next
  case (Inr found)
  show ?thesis
  proof (cases found)
    case None
    with Inr show ?thesis
      by (simp add: put_task_def Let_def enveloped_failure code_simps)
  next
    case (Some existingTask)
    show ?thesis
    proof (cases "truthy (attr b ''status'') \<and> attr b ''status'' \<notin> set validStatuses")
      case True
      with Inr Some show ?thesis
        by (simp add: put_task_def Let_def enveloped_failure code_simps)
    next
      case False
      have cont:
        "enveloped (fst (case send_Update t tn k v s of
                           Inl e \<Rightarrow> (failure 500 m, s)
                         | Inr (attributes, s') \<Rightarrow>
                             (res_json 200 [(''success'', Bool True), (''task'', Obj attributes)], s')))"
        "known_code (status_code (fst (case send_Update t tn k v s of
                           Inl e \<Rightarrow> (failure 500 m, s)
                         | Inr (attributes, s') \<Rightarrow>
                             (res_json 200 [(''success'', Bool True), (''task'', Obj attributes)], s'))))"
        for t tn k v m
        by (cases t; simp add: send_Update_def enveloped_failure enveloped_success code_simps)+
      show ?thesis
        unfolding put_task_def Let_def Inr Some
        by (simp only: sum.case option.case if_not_P [OF False] cont simp_thms)
    qed
  qed
qed

lemma enveloped_put_task: "enveloped (fst (put_task fs n i b s))"
  by (simp add: put_task_response)

lemma enveloped_delete_task: "enveloped (fst (delete_task fs i s))"
  by (simp add: delete_task_def enveloped_failure enveloped_success split: sum.splits option.splits)

lemma enveloped_get_dashboard: "enveloped (fst (get_dashboard fs tv s))"
  by (simp add: get_dashboard_def Let_def enveloped_failure enveloped_success split: sum.splits)

lemma enveloped_get_boards: "enveloped (fst (get_boards fs s))"
  by (simp add: get_boards_def Let_def enveloped_failure enveloped_success split: sum.splits)

lemma code_get_tasks: "known_code (status_code (fst (get_tasks fs b s)))"
  by (simp add: get_tasks_def Let_def code_simps split: sum.splits)

lemma code_get_task: "known_code (status_code (fst (get_task fs i s)))"
  by (simp add: get_task_def code_simps split: sum.splits option.splits)

lemma code_post_tasks: "known_code (status_code (fst (post_tasks fs g t1 t2 b s)))"
  by (simp add: post_tasks_def Let_def code_simps split: sum.splits option.splits)

lemma code_put_task: "known_code (status_code (fst (put_task fs n i b s)))"
  by (simp add: put_task_response)

lemma code_delete_task: "known_code (status_code (fst (delete_task fs i s)))"
  by (simp add: delete_task_def code_simps split: sum.splits option.splits)

lemma code_get_dashboard: "known_code (status_code (fst (get_dashboard fs tv s)))"
  by (simp add: get_dashboard_def Let_def code_simps split: sum.splits)

lemma code_get_boards: "known_code (status_code (fst (get_boards fs s)))"
  by (simp add: get_boards_def Let_def code_simps split: sum.splits)

lemma routes_response:
  "enveloped (fst (routes a m p q b s)) \<and> known_code (status_code (fst (routes a m p q b s)))"
  by (cases m; cases p)
    (simp_all add: enveloped_get_tasks enveloped_get_task enveloped_post_tasks
      enveloped_put_task enveloped_delete_task enveloped_get_dashboard enveloped_get_boards
      code_get_tasks code_get_task code_post_tasks code_put_task code_delete_task
      code_get_dashboard code_get_boards get_health_def not_found_handler_def
      enveloped_failure enveloped_success code_simps)

lemma handle_sends:
  assumes "req_method req \<noteq> OPTIONS"
  shows "\<exists>r. fst (handle a req s) =
               \<lparr>sent_status = (if fresh req r then 304 else status_code r),
                sent_body =
                  (if fresh req r \<or> req_method req = HEAD then None else Some (json r))\<rparr> \<and>
             enveloped r \<and> known_code (status_code r)"
proof -
  define run where "run =
    (if req_raises req then (global_error_handler, s)
     else routes a (as_get (req_method req)) (req_path req) (req_boardId req) (req_body req) s)"
  obtain r s' where run: "run = (r, s')"
    by (cases run)
  have "enveloped (fst run) \<and> known_code (status_code (fst run))"
    unfolding run_def
    by (simp add: routes_response global_error_handler_def enveloped_failure code_simps)
  then have ok: "enveloped r \<and> known_code (status_code r)"
    by (simp add: run)
  have "handle a req s =
          (\<lparr>sent_status = (if fresh req r then 304 else status_code r),
            sent_body =
              (if fresh req r \<or> req_method req = HEAD then None else Some (json r))\<rparr>, s')"
    unfolding handle_def run_def [symmetric] run using assms
    by (simp only: if_False Let_def prod.case)
  then show ?thesis
    using ok by (intro exI [of _ r]) simp
qed

text \<open>
  C8, as the code has it. Take any request other than OPTIONS and HEAD that is not a GET
  revalidating what the client already holds. Whatever the route (the fallback for
  unmatched routes and the final error handler included), the store and the outcome of
  the store calls, a body is sent; it has a boolean \<^verbatim>\<open>success\<close> that is \<^verbatim>\<open>true\<close> exactly when
  the status code is 200 or 201, and under every other code it has a string \<^verbatim>\<open>error\<close>;
  the code is one of 200, 201, 400, 404 and 500. An OPTIONS request, whatever its path,
  is answered 204 with no body and the store untouched. A HEAD request is answered with
  no body. A revalidating GET is answered either 304 with no body or with a failure
  body in the envelope.
\<close>

theorem every_response_enveloped:
  "(req_method req \<noteq> OPTIONS \<and> req_method req \<noteq> HEAD \<and>
    \<not> (req_method req = GET \<and> req_revalidates req) \<longrightarrow>
      (\<exists>r. fst (handle a req s) = \<lparr>sent_status = status_code r, sent_body = Some (json r)\<rparr> \<and>
           enveloped r \<and> status_code r \<in> {200, 201, 400, 404, 500})) \<and>
   (req_method req = OPTIONS \<longrightarrow>
      handle a req s = (\<lparr>sent_status = 204, sent_body = None\<rparr>, s)) \<and>
   (req_method req = HEAD \<longrightarrow>
      sent_body (fst (handle a req s)) = None \<and>
      sent_status (fst (handle a req s)) \<in> {200, 201, 304, 400, 404, 500}) \<and>
   (req_method req = GET \<and> req_revalidates req \<longrightarrow>
      fst (handle a req s) = \<lparr>sent_status = 304, sent_body = None\<rparr> \<or>
      (\<exists>r. fst (handle a req s) = \<lparr>sent_status = status_code r, sent_body = Some (json r)\<rparr> \<and>
           enveloped r \<and> status_code r \<in> {400, 404, 500}))"
proof (intro conjI impI)
  assume m: "req_method req \<noteq> OPTIONS \<and> req_method req \<noteq> HEAD \<and>
             \<not> (req_method req = GET \<and> req_revalidates req)"
  then have no: "req_method req \<noteq> OPTIONS"
    by simp
  obtain r where
    "fst (handle a req s) =
       \<lparr>sent_status = (if fresh req r then 304 else status_code r),
        sent_body = (if fresh req r \<or> req_method req = HEAD then None else Some (json r))\<rparr>"
    and "enveloped r" and "known_code (status_code r)"
    using handle_sends [OF no, of a s] by blast
  moreover have "\<not> fresh req r"
    using m by (auto simp: fresh_def)
  ultimately show
    "\<exists>r. fst (handle a req s) = \<lparr>sent_status = status_code r, sent_body = Some (json r)\<rparr> \<and>
           enveloped r \<and> status_code r \<in> {200, 201, 400, 404, 500}"
    using m by (auto simp: known_code_def)
next
  assume "req_method req = OPTIONS"
  then show "handle a req s = (\<lparr>sent_status = 204, sent_body = None\<rparr>, s)"
    by (simp add: handle_def)
next
  assume h: "req_method req = HEAD"
  then have no: "req_method req \<noteq> OPTIONS"
    by simp
  obtain r :: response where r:
    "fst (handle a req s) =
       \<lparr>sent_status = (if fresh req r then 304 else status_code r),
        sent_body = (if fresh req r \<or> req_method req = HEAD then None else Some (json r))\<rparr>"
    and k: "known_code (status_code r)"
    using handle_sends [OF no, of a s] by blast
  show "sent_body (fst (handle a req s)) = None"
    by (simp add: r h)
  show "sent_status (fst (handle a req s)) \<in> {200, 201, 304, 400, 404, 500}"
    using k by (auto simp: r known_code_def)
next
  assume g: "req_method req = GET \<and> req_revalidates req"
  then have no: "req_method req \<noteq> OPTIONS"
    by simp
  obtain r where r:
    "fst (handle a req s) =
       \<lparr>sent_status = (if fresh req r then 304 else status_code r),
        sent_body = (if fresh req r \<or> req_method req = HEAD then None else Some (json r))\<rparr>"
    and e: "enveloped r" and k: "known_code (status_code r)"
    using handle_sends [OF no, of a s] by blast
  show "fst (handle a req s) = \<lparr>sent_status = 304, sent_body = None\<rparr> \<or>
      (\<exists>r. fst (handle a req s) = \<lparr>sent_status = status_code r, sent_body = Some (json r)\<rparr> \<and>
           enveloped r \<and> status_code r \<in> {400, 404, 500})"
  proof (cases "fresh req r")
    case True
    then show ?thesis by (simp add: r)
  next
    case False
    then have "status_code r \<in> {400, 404, 500}"
      using g k by (auto simp: fresh_def known_code_def)
    then show ?thesis
      using r e False g by auto
  qed
qed

theorem every_response_enveloped_witness:
  "\<exists>r. fst (handle failing_ambient delete_request example_store) =
          \<lparr>sent_status = status_code r, sent_body = Some (json r)\<rparr> \<and>
        enveloped r \<and> status_code r \<in> {200, 201, 400, 404, 500}"
  using every_response_enveloped [of delete_request failing_ambient example_store]
  by (simp add: delete_request_def)

text \<open>
  The answer to an OPTIONS request has no body, so no \<^verbatim>\<open>success\<close> field, and its code is
  204; the answer to a HEAD request has no body either.
\<close>

theorem options_request_counterexample:
  "handle example_ambient options_request example_store =
     (\<lparr>sent_status = 204, sent_body = None\<rparr>, example_store) \<and>
   handle example_ambient head_request example_store =
     (\<lparr>sent_status = 200, sent_body = None\<rparr>, example_store)"
  by (simp add: handle_def options_request_def head_request_def example_ambient_def
      get_health_def res_json_def fresh_def)

section \<open>Updating with an empty title\<close>

text \<open>
  C9. A PUT /tasks/:id whose body has \<^verbatim>\<open>title: ""\<close> does exactly what the same request
  without a title does, whatever the store holds. So on an existing task, with the store
  calls going through and a status that is absent or valid, the answer is 200 and not
  400, the stored title is what it was and \<^verbatim>\<open>updatedAt\<close> is refreshed; a
  \<^verbatim>\<open>description: ""\<close> in the same body does clear the description.
\<close>

theorem put_task_empty_title:
  assumes "attr body ''title'' = Str ''''"
  shows "put_task fs now ident body s = put_task fs now ident (without ''title'' body) s \<and>
         (\<forall>old. get_item (Str ident) (task_items s) = Some old \<and>
                \<not> raises fs 0 \<and> \<not> raises fs 1 \<and>
                (truthy (attr body ''status'') \<longrightarrow> attr body ''status'' \<in> set validStatuses) \<longrightarrow>
            (\<exists>new s'.
               put_task fs now ident body s =
                 (res_json 200 [(''success'', Bool True), (''task'', Obj new)], s') \<and>
               get_item (Str ident) (task_items s') = Some new \<and>
               attr new ''title'' = attr old ''title'' \<and>
               attr new ''updatedAt'' = Str now \<and>
               (attr body ''description'' = Str '''' \<longrightarrow> attr new ''description'' = Str '''')))"
proof (intro conjI allI impI)
  show "put_task fs now ident body s = put_task fs now ident (without ''title'' body) s"
    by (simp add: put_task_def Let_def attr_without assms split: sum.splits option.splits)
next
  fix old
  assume h: "get_item (Str ident) (task_items s) = Some old \<and>
             \<not> raises fs 0 \<and> \<not> raises fs 1 \<and>
             (truthy (attr body ''status'') \<longrightarrow> attr body ''status'' \<in> set validStatuses)"
  let ?sets = "[(''updatedAt'', Str now)] @
     (if truthy (attr body ''title'') then [(''title'', attr body ''title'')] else []) @
     (if attr body ''description'' \<noteq> Undefined
      then [(''description'', attr body ''description'')] else []) @
     (if truthy (attr body ''status'') then [(''status'', attr body ''status'')] else [])"
  from h have a: "get_item (Str ident) (task_items s) = Some old"
    and b: "\<not> raises fs 0" and c: "\<not> raises fs 1"
    and d: "truthy (attr body ''status'') \<longrightarrow> attr body ''status'' \<in> set validStatuses"
    by simp_all
  note run = put_task_runs [OF a b c d, of now]
  have title: "attr (apply_set ?sets old) ''title'' = attr old ''title''"
    by (simp add: attr_apply_set assms)
  have upd: "attr (apply_set ?sets old) ''updatedAt'' = Str now"
    by (simp add: attr_apply_set assms)
  have descr: "attr body ''description'' = Str '''' \<longrightarrow>
               attr (apply_set ?sets old) ''description'' = Str ''''"
    by (simp add: attr_apply_set assms)
  let ?new = "apply_set ?sets old"
  let ?s' = "s\<lparr>task_items := update_item (Str ident) ?sets (task_items s)\<rparr>"
  have "put_task fs now ident body s =
          (res_json 200 [(''success'', Bool True), (''task'', Obj ?new)], ?s')"
    by (rule run(1))
  moreover have "get_item (Str ident) (task_items ?s') = Some ?new"
    by (rule run(2))
  ultimately show "\<exists>new s'.
               put_task fs now ident body s =
                 (res_json 200 [(''success'', Bool True), (''task'', Obj new)], s') \<and>
               get_item (Str ident) (task_items s') = Some new \<and>
               attr new ''title'' = attr old ''title'' \<and>
               attr new ''updatedAt'' = Str now \<and>
               (attr body ''description'' = Str '''' \<longrightarrow> attr new ''description'' = Str '''')"
    using title upd descr by blast
qed

theorem put_task_empty_title_witness:
  "put_task [] ''2024-02-01T00:00:00.000Z'' ''1''
       [(''title'', Str ''''), (''description'', Str '''')] example_store
     = put_task [] ''2024-02-01T00:00:00.000Z'' ''1''
         (without ''title'' [(''title'', Str ''''), (''description'', Str '''')]) example_store \<and>
   without ''title'' [(''title'', Str ''''), (''description'', Str '''')] = [(''description'', Str '''')] \<and>
   (\<exists>new s'.
      put_task [] ''2024-02-01T00:00:00.000Z'' ''1''
          [(''title'', Str ''''), (''description'', Str '''')] example_store =
        (res_json 200 [(''success'', Bool True), (''task'', Obj new)], s') \<and>
      get_item (Str ''1'') (task_items s') = Some new \<and>
      attr new ''title'' = attr task_1 ''title'' \<and>
      attr new ''updatedAt'' = Str ''2024-02-01T00:00:00.000Z'' \<and>
      attr new ''description'' = Str '''')"
proof -
  let ?body = "[(''title'', Str ''''), (''description'', Str '''')]"
  have empty: "attr ?body ''title'' = Str ''''"
    by (simp add: attr_def)
  have pre: "get_item (Str ''1'') (task_items example_store) = Some task_1 \<and>
             \<not> raises [] 0 \<and> \<not> raises [] 1 \<and>
             (truthy (attr ?body ''status'') \<longrightarrow> attr ?body ''status'' \<in> set validStatuses)"
    by (simp add: example_simps)
  have descr: "attr ?body ''description'' = Str ''''"
    by (simp add: attr_def)
  have wo: "without ''title'' ?body = [(''description'', Str '''')]"
    by (simp add: without_def)
  from put_task_empty_title [OF empty, of "[]" "''2024-02-01T00:00:00.000Z''" "''1''" example_store]
    pre descr wo
  show ?thesis by blast
qed

section \<open>Creating a task with an empty status\<close>

text \<open>
  C10. POST /tasks with a title, the id of an existing board and \<^verbatim>\<open>status: ""\<close> is not
  rejected: \<^verbatim>\<open>status || 'todo'\<close> reads the empty string as no status, the answer is 201
  and the task is stored with status \<^verbatim>\<open>todo\<close>.
\<close>

theorem post_tasks_empty_status:
  assumes "truthy (attr body ''title'')" and "truthy (attr body ''boardId'')"
    and "get_item (attr body ''boardId'') (board_items s) = Some board"
    and "\<not> raises fs 0" and "\<not> raises fs 1"
    and "attr body ''status'' = Str ''''"
  shows "\<exists>task s'. post_tasks fs gid t1 t2 body s =
            (res_json 201 [(''success'', Bool True), (''task'', Obj task)], s') \<and>
          attr task ''status'' = Str ''todo'' \<and>
          get_item (Str gid) (task_items s') = Some task"
proof -
  let ?task = "[(''id'', Str gid), (''boardId'', attr body ''boardId''), (''title'', attr body ''title''),
     (''description'', or_else (attr body ''description'') (Str '''')), (''status'', Str ''todo''),
     (''createdAt'', Str t1), (''updatedAt'', Str t2)]"
  have id: "attr ?task ''id'' = Str gid" by (simp add: attr_def)
  have "post_tasks fs gid t1 t2 body s =
          (res_json 201 [(''success'', Bool True), (''task'', Obj ?task)],
           s\<lparr>task_items := put_item ?task (task_items s)\<rparr>)"
    using assms
    by (simp add: post_tasks_def Let_def send_Get_def send_Put_def or_else_def validStatuses_def)
  moreover have "attr ?task ''status'' = Str ''todo''" by (simp add: attr_def)
  moreover have "get_item (Str gid) (task_items (s\<lparr>task_items := put_item ?task (task_items s)\<rparr>)) = Some ?task"
    using get_item_put_item [of ?task "task_items s"] by (simp only: id) simp
  ultimately show ?thesis by blast
qed

theorem post_tasks_empty_status_witness:
  "\<exists>task s'. post_tasks [] ''2'' ''2024-01-02T00:00:00.000Z'' ''2024-01-02T00:00:00.000Z''
             [(''title'', Str ''T2''), (''boardId'', Str ''b1''), (''status'', Str '''')] example_store =
            (res_json 201 [(''success'', Bool True), (''task'', Obj task)], s') \<and>
          attr task ''status'' = Str ''todo'' \<and>
          get_item (Str ''2'') (task_items s') = Some task"
  using post_tasks_empty_status [of "[(''title'', Str ''T2''), (''boardId'', Str ''b1''), (''status'', Str '''')]"
      example_store board_b1 "[]" "''2''" "''2024-01-02T00:00:00.000Z''" "''2024-01-02T00:00:00.000Z''"]
  by (simp add: example_simps)

end
